theory Spec2Isabelle
  imports Complex_Main "HOL-Library.Char_ord"
begin

section \<open>Python strings\<close>

text \<open>
  Texts are \<open>string\<close>s: lists of 8-bit characters, read as the code points 0..255 of a
  Python \<open>str\<close>. \<open>is_space\<close> is \<open>str.isspace\<close> on one character of that range; it is
  the set that \<open>str.split()\<close>, \<open>str.strip()\<close> and the regular expression class
  \<open>\s\<close> use.
\<close>

definition is_space :: "char \<Rightarrow> bool" where
  "is_space c =
     (let n = (of_char c :: nat)
      in (9 \<le> n \<and> n \<le> 13) \<or> (28 \<le> n \<and> n \<le> 32) \<or> n = 133 \<or> n = 160)"

definition strip :: "string \<Rightarrow> string" where
  \<comment> \<open>\<open>s.strip()\<close>\<close>
  "strip s = rev (dropWhile is_space (rev (dropWhile is_space s)))"

function py_split :: "string \<Rightarrow> string list" where
  \<comment> \<open>\<open>s.split()\<close>: maximal runs of non-whitespace characters\<close>
  "py_split s =
     (case dropWhile is_space s of
        [] \<Rightarrow> []
      | c # cs \<Rightarrow>
          takeWhile (\<lambda>x. \<not> is_space x) (c # cs) #
          py_split (dropWhile (\<lambda>x. \<not> is_space x) (c # cs)))"
  by pat_completeness auto
termination
proof (relation "measure length")
  show "wf (measure length)" by simp
next
  fix s :: string and c cs
  assume a: "dropWhile is_space s = c # cs"
  have nsp: "\<not> is_space c"
    using a hd_dropWhile [of is_space s] by (metis list.sel(1) list.simps(3))
  have "length (dropWhile (\<lambda>x. \<not> is_space x) (c # cs)) \<le> length cs"
    using nsp by (simp add: length_dropWhile_le)
  also have "\<dots> < length (dropWhile is_space s)" using a by simp
  also have "\<dots> \<le> length s" by (rule length_dropWhile_le)
  finally show "(dropWhile (\<lambda>x. \<not> is_space x) (c # cs), s) \<in> measure length" by simp
qed

fun py_join :: "string \<Rightarrow> string list \<Rightarrow> string" where
  \<comment> \<open>\<open>sep.join(xs)\<close>\<close>
  "py_join sep [] = []"
| "py_join sep [x] = x"
| "py_join sep (x # y # ys) = x @ sep @ py_join sep (y # ys)"

fun split_on :: "char \<Rightarrow> string \<Rightarrow> string list" where
  \<comment> \<open>\<open>s.split(sep)\<close> for a one-character separator: never the empty list\<close>
  "split_on sep [] = [[]]"
| "split_on sep (c # cs) =
     (if c = sep then [] # split_on sep cs
      else (case split_on sep cs of
              [] \<Rightarrow> [[c]]
            | x # xs \<Rightarrow> (c # x) # xs))"

definition endswith :: "string \<Rightarrow> string list \<Rightarrow> bool" where
  \<comment> \<open>\<open>s.endswith((a, b, ...))\<close>\<close>
  "endswith s sufs = (\<exists>suf \<in> set sufs. length suf \<le> length s \<and> drop (length s - length suf) s = suf)"

definition py_slice :: "'a list \<Rightarrow> int \<Rightarrow> int \<Rightarrow> 'a list" where
  \<comment> \<open>\<open>xs[lo:hi]\<close>: a negative bound counts from the end, every bound is clipped\<close>
  "py_slice xs lo hi =
     (let n = int (length xs);
          l = (if lo < 0 then max (lo + n) 0 else min lo n);
          h = (if hi < 0 then max (hi + n) 0 else min hi n)
      in take (nat (h - l)) (drop (nat l) xs))"

function str_nat :: "nat \<Rightarrow> string" where
  "str_nat n =
     (if n < 10 then [''0123456789'' ! n]
      else str_nat (n div 10) @ [''0123456789'' ! (n mod 10)])"
  by pat_completeness auto
termination
  by (relation "measure id") auto

declare py_split.simps [simp del]
declare str_nat.simps [simp del]

definition py_str :: "int \<Rightarrow> string" where
  \<comment> \<open>\<open>str(i)\<close> of an integer, as an f-string renders it\<close>
  "py_str i = (if i < 0 then CHR ''-'' # str_nat (nat (- i)) else str_nat (nat i))"

section \<open>Chunks\<close>

record chunk =
  heading :: string
  content :: string

section \<open>Fixed-size chunking (\<open>TextService.chunk_by_size\<close>)\<close>

datatype exn =
    ValueError string
  | KeyError string
  | TypeError string
  | AttributeError string
  | HttpxError string
  | HTTPException int string
  | DBAPIError string
  | PendingRollbackError string

function range_from :: "int \<Rightarrow> int \<Rightarrow> int \<Rightarrow> int list" where
  \<comment> \<open>the values of \<open>range(i, n, step)\<close> for a positive step\<close>
  "range_from i n step = (if 0 < step \<and> i < n then i # range_from (i + step) n step else [])"
  by pat_completeness auto
termination
  by (relation "measure (\<lambda>(i, n, step). nat (n - i))") auto

declare range_from.simps [simp del]

definition py_range :: "int \<Rightarrow> int \<Rightarrow> int \<Rightarrow> exn + int list" where
  \<comment> \<open>\<open>range(start, stop, step)\<close> with increasing values; a zero step raises, a negative
      step from \<open>start = 0\<close> up to a length gives no value\<close>
  "py_range start stop step =
     (if step = 0 then Inl (ValueError ''range() arg 3 must not be zero'')
      else Inr (range_from start stop step))"

fun find_title :: "string list \<Rightarrow> string option" where
  \<comment> \<open>the \<open>for line in lines[:5]\<close> loop, \<open>break\<close> at the first title\<close>
  "find_title [] = None"
| "find_title (line # rest) =
     (let l = strip line
      in if 10 < length l \<and> length l < 100 \<and> endswith l ['':'', ''.''] then Some l
         else find_title rest)"

definition chunk_title :: "string \<Rightarrow> nat \<Rightarrow> string" where
  \<comment> \<open>\<open>potential_title or f"Chunk {len(chunks) + 1}"\<close>; a found title is never empty\<close>
  "chunk_title chunk_text n =
     (case find_title (take 5 (split_on (CHR 0x0A) chunk_text)) of
        Some t \<Rightarrow> t
      | None \<Rightarrow> ''Chunk '' @ py_str (int n + 1))"

fun size_loop :: "string list \<Rightarrow> int \<Rightarrow> int list \<Rightarrow> chunk list \<Rightarrow> chunk list" where
  "size_loop tokens max_tokens [] chunks = chunks"
| "size_loop tokens max_tokens (i # is) chunks =
     (let chunk_text = py_join '' '' (py_slice tokens i (i + max_tokens))
      in size_loop tokens max_tokens is
           (chunks @ [\<lparr>heading = chunk_title chunk_text (length chunks), content = chunk_text\<rparr>]))"

definition chunk_by_size :: "string \<Rightarrow> int \<Rightarrow> int \<Rightarrow> exn + chunk list" where
  "chunk_by_size text max_tokens overlap =
     (let tokens = py_split text
      in case py_range 0 (int (length tokens)) (max_tokens - overlap) of
           Inl e \<Rightarrow> Inl e
         | Inr is \<Rightarrow> Inr (size_loop tokens max_tokens is []))"

fun remove_overlap :: "nat \<Rightarrow> chunk list \<Rightarrow> string list" where
  \<comment> \<open>the reading of the chunks that the reconstruction property is about: the first
      \<open>k\<close> whitespace tokens of every chunk but the last, all tokens of the last\<close>
  "remove_overlap k [] = []"
| "remove_overlap k [c] = py_split (content c)"
| "remove_overlap k (c # d # cs) = take k (py_split (content c)) @ remove_overlap k (d # cs)"

section \<open>Heading-based chunking (\<open>TextService.chunk_by_headings\<close>)\<close>

text \<open>
  The three heading patterns are regular expressions of Python's \<open>re\<close>. The fragment
  they use is embedded as the datatype \<open>rx\<close>: literal text, one character of a class, a
  repeated character class (at least \<open>k\<close> times, greedy or lazy), \<open>^\<close>, \<open>$\<close>,
  sequence and alternation. \<open>ends r s i\<close> lists the positions at which a match of
  \<open>r\<close> that starts at \<open>i\<close> can end, in the order in which the backtracking matcher
  tries them; the matcher takes the first. No flag is given to \<open>re.finditer\<close>, so
  \<open>^\<close> matches at position 0 only, \<open>$\<close> at the end of the text or before a final
  newline, and \<open>.\<close> matches every character but the newline.
\<close>

datatype rx =
    Str string
  | Cls "char \<Rightarrow> bool"
  | Rep "char \<Rightarrow> bool" nat bool
  | Bol
  | Eol
  | Seq rx rx
  | Alt rx rx

fun ends :: "rx \<Rightarrow> string \<Rightarrow> nat \<Rightarrow> nat list" where
  "ends (Str w) s i = (if take (length w) (drop i s) = w then [i + length w] else [])"
| "ends (Cls p) s i = (if i < length s \<and> p (s ! i) then [i + 1] else [])"
| "ends (Rep p k greedy) s i =
     (let n = length (takeWhile p (drop i s));
          lazy = map (\<lambda>j. i + j) [k..<n + 1]
      in if greedy then rev lazy else lazy)"
| "ends Bol s i = (if i = 0 then [i] else [])"
| "ends Eol s i =
     (if i = length s \<or> (i + 1 = length s \<and> s ! i = CHR 0x0A) then [i] else [])"
| "ends (Seq a b) s i = concat (map (ends b s) (ends a s i))"
| "ends (Alt a b) s i = ends a s i @ ends b s i"

definition is_upper :: "char \<Rightarrow> bool" where
  "is_upper c = (CHR ''A'' \<le> c \<and> c \<le> CHR ''Z'')"
definition is_lower :: "char \<Rightarrow> bool" where
  "is_lower c = (CHR ''a'' \<le> c \<and> c \<le> CHR ''z'')"
definition is_digit :: "char \<Rightarrow> bool" where
  "is_digit c = (CHR ''0'' \<le> c \<and> c \<le> CHR ''9'')"
definition not_newline :: "char \<Rightarrow> bool" where
  "not_newline c = (c \<noteq> CHR 0x0A)"

definition line_start :: rx where
  "line_start = Alt (Str [CHR 0x0A]) Bol"
definition line_end :: rx where
  "line_end = Alt (Str [CHR 0x0A]) Eol"

definition markdown_heading :: rx where
  "markdown_heading =
     Seq line_start (Seq (Rep (\<lambda>c. c = CHR ''#'') 1 True) (Seq (Rep is_space 1 True)
       (Seq (Rep not_newline 1 False) line_end)))"

definition chapter_heading :: rx where
  "chapter_heading =
     Seq line_start (Seq (Alt (Str ''CHAPTER'') (Str ''Section'')) (Seq (Rep is_space 1 True)
       (Seq (Rep is_digit 1 True) (Seq (Cls (\<lambda>c. c = CHR ''.'' \<or> c = CHR '':''))
         (Seq (Rep is_space 0 True) (Seq (Rep not_newline 1 False) line_end))))))"

definition caps_heading :: rx where
  "caps_heading =
     Seq line_start (Seq (Cls is_upper)
       (Seq (Rep (\<lambda>c. is_upper c \<or> is_lower c \<or> is_space c) 1 True) line_end))"

definition combined_pattern :: rx where
  "combined_pattern = Alt markdown_heading (Alt chapter_heading caps_heading)"

function finditer_from :: "rx \<Rightarrow> string \<Rightarrow> nat \<Rightarrow> (nat \<times> nat) list" where
  "finditer_from r s pos =
     (if length s < pos then []
      else (case ends r s pos of
              [] \<Rightarrow> finditer_from r s (pos + 1)
            | e # _ \<Rightarrow> (pos, e) # finditer_from r s (if pos < e then e else pos + 1)))"
  by pat_completeness auto
termination
  by (relation "measure (\<lambda>(r, s, pos). length s + 1 - pos)") auto

declare finditer_from.simps [simp del]

fun headings_loop :: "string \<Rightarrow> (nat \<times> nat) list \<Rightarrow> chunk list \<Rightarrow> nat \<Rightarrow> string \<Rightarrow>
    chunk list \<times> nat \<times> string" where
  "headings_loop text [] chunks last_end current_heading = (chunks, last_end, current_heading)"
| "headings_loop text ((start, en) # ms) chunks last_end current_heading =
     (let heading_text = strip (take (en - start) (drop start text));
          chunks' =
            (if last_end < start then
               (let chunk_text = strip (take (start - last_end) (drop last_end text))
                in if chunk_text \<noteq> [] then
                     chunks @ [\<lparr>heading = current_heading, content = chunk_text\<rparr>]
                   else chunks)
             else chunks)
      in headings_loop text ms chunks' en heading_text)"

definition chunk_by_headings :: "string \<Rightarrow> chunk list" where
  "chunk_by_headings text =
     (case headings_loop text (finditer_from combined_pattern text 0) [] 0 ''Introduction'' of
        (chunks, last_end, current_heading) \<Rightarrow>
          if last_end < length text then
            chunks @ [\<lparr>heading = current_heading, content = strip (drop last_end text)\<rparr>]
          else chunks)"


section \<open>Generation providers (\<open>ModelProvider\<close>)\<close>

text \<open>
  Python values that come out of JSON. A \<open>dict\<close> is an association list with distinct
  keys, in insertion order.
\<close>

datatype json =
    JNull
  | JBool bool
  | JNum int
  | JFloat real
  | JStr string
  | JArr "json list"
  | JObj "(string \<times> json) list"

type_synonym pydict = "(string \<times> json) list"

fun type_name :: "json \<Rightarrow> string" where
  "type_name JNull = ''NoneType''"
| "type_name (JBool b) = ''bool''"
| "type_name (JNum n) = ''int''"
| "type_name (JFloat x) = ''float''"
| "type_name (JStr s) = ''str''"
| "type_name (JArr xs) = ''list''"
| "type_name (JObj kvs) = ''dict''"

fun exn_str :: "exn \<Rightarrow> string" where
  \<comment> \<open>\<open>str(e)\<close>\<close>
  "exn_str (ValueError m) = m"
| "exn_str (KeyError k) = [CHR 0x27] @ k @ [CHR 0x27]"
| "exn_str (TypeError m) = m"
| "exn_str (AttributeError m) = m"
| "exn_str (HttpxError m) = m"
| "exn_str (HTTPException code detail) = py_str code @ '': '' @ detail"
| "exn_str (DBAPIError m) = m"
| "exn_str (PendingRollbackError m) = m"

definition no_attribute :: "json \<Rightarrow> string \<Rightarrow> exn" where
  "no_attribute v a =
     AttributeError ([CHR 0x27] @ type_name v @ [CHR 0x27] @ '' object has no attribute '' @
                     [CHR 0x27] @ a @ [CHR 0x27])"

definition dict_get :: "json \<Rightarrow> string \<Rightarrow> json \<Rightarrow> exn + json" where
  \<comment> \<open>\<open>v.get(k, default)\<close>: only a \<open>dict\<close> has \<open>get\<close>\<close>
  "dict_get v k dflt =
     (case v of
        JObj kvs \<Rightarrow> Inr (case map_of kvs k of Some x \<Rightarrow> x | None \<Rightarrow> dflt)
      | _ \<Rightarrow> Inl (no_attribute v ''get''))"

definition py_iter :: "json \<Rightarrow> exn + json list" where
  \<comment> \<open>what \<open>for x in v\<close> runs over: the items of a list, the keys of a dict, the
      characters of a string; anything else is not iterable\<close>
  "py_iter v =
     (case v of
        JArr xs \<Rightarrow> Inr xs
      | JObj kvs \<Rightarrow> Inr (map (\<lambda>kv. JStr (fst kv)) kvs)
      | JStr cs \<Rightarrow> Inr (map (\<lambda>c. JStr [c]) cs)
      | _ \<Rightarrow> Inl (TypeError ([CHR 0x27] @ type_name v @ [CHR 0x27] @ '' object is not iterable'')))"

fun dict_set :: "string \<Rightarrow> json \<Rightarrow> pydict \<Rightarrow> pydict" where
  \<comment> \<open>\<open>d[k] = v\<close>\<close>
  "dict_set k v [] = [(k, v)]"
| "dict_set k v ((k', v') # kvs) =
     (if k' = k then (k, v) # kvs else (k', v') # dict_set k v kvs)"

definition set_section :: "string \<Rightarrow> json \<Rightarrow> exn + pydict" where
  \<comment> \<open>\<open>pair["section"] = section_heading\<close>\<close>
  "set_section h pair =
     (case pair of
        JObj kvs \<Rightarrow> Inr (dict_set ''section'' (JStr h) kvs)
      | JArr xs \<Rightarrow> Inl (TypeError ''list indices must be integers or slices, not str'')
      | _ \<Rightarrow> Inl (TypeError ([CHR 0x27] @ type_name pair @ [CHR 0x27] @
                              '' object does not support item assignment'')))"

fun stamp_items :: "string \<Rightarrow> json list \<Rightarrow> exn + pydict list" where
  "stamp_items h [] = Inr []"
| "stamp_items h (pair # rest) =
     (case set_section h pair of
        Inl e \<Rightarrow> Inl e
      | Inr d \<Rightarrow> (case stamp_items h rest of Inl e \<Rightarrow> Inl e | Inr ds \<Rightarrow> Inr (d # ds)))"

definition stamp :: "string \<Rightarrow> json \<Rightarrow> exn + pydict list" where
  \<comment> \<open>\<open>for pair in qa_pairs: pair["section"] = section_heading\<close>, then
      \<open>return qa_pairs\<close>. The returned value is only ever iterated by the caller, so it
      is given as the dicts that iterating it yields.\<close>
  "stamp h qa_pairs = (case py_iter qa_pairs of Inl e \<Rightarrow> Inl e | Inr items \<Rightarrow> stamp_items h items)"

definition section_heading_of :: "(string \<times> string) list option \<Rightarrow> string" where
  \<comment> \<open>\<open>context.get("heading", "Text") if context else "Text"\<close>\<close>
  "section_heading_of ctx =
     (case ctx of
        None \<Rightarrow> ''Text''
      | Some kvs \<Rightarrow> if kvs = [] then ''Text''
                   else (case map_of kvs ''heading'' of Some h \<Rightarrow> h | None \<Rightarrow> ''Text''))"

definition error_pair :: "exn \<Rightarrow> string \<Rightarrow> pydict" where
  \<comment> \<open>the dict returned from the \<open>except Exception as e\<close> branch\<close>
  "error_pair e section_heading =
     [(''question'', JStr ''Error generating Q&A''),
      (''answer'', JStr (''API error: '' @ exn_str e)),
      (''type'', JStr ''error''),
      (''section'', JStr section_heading)]"

text \<open>
  The outcome of one HTTP exchange with a backend is an input of the model:
  \<open>client.post\<close> raises, \<open>raise_for_status\<close> raises (every 4xx and 5xx status, an
  authentication failure among them), \<open>response.json()\<close> raises, or the decoded body is
  there. The prompt is text sent to the backend and does not enter the model.
  \<open>json.loads\<close> is a parameter: it returns the parsed value or the message of the
  exception it raises.
\<close>

datatype http_result =
    TransportError string
  | StatusError string
  | BodyNotJson string
  | Body json

definition http_body :: "http_result \<Rightarrow> exn + json" where
  "http_body r =
     (case r of
        TransportError m \<Rightarrow> Inl (HttpxError m)
      | StatusError m \<Rightarrow> Inl (HttpxError m)
      | BodyNotJson m \<Rightarrow> Inl (ValueError m)
      | Body b \<Rightarrow> Inr b)"

definition loads_value :: "(string \<Rightarrow> string + json) \<Rightarrow> json \<Rightarrow> exn + json" where
  \<comment> \<open>\<open>json.loads(v)\<close>: only text can be parsed\<close>
  "loads_value loads v =
     (case v of
        JStr t \<Rightarrow> (case loads t of Inl m \<Rightarrow> Inl (ValueError m) | Inr x \<Rightarrow> Inr x)
      | _ \<Rightarrow> Inl (TypeError (''the JSON object must be str, bytes or bytearray, not '' @ type_name v)))"

fun first_text_block :: "json list \<Rightarrow> exn + json" where
  \<comment> \<open>\<open>next((block.get("text") for block in content if block.get("type") == "text"), "[]")\<close>\<close>
  "first_text_block [] = Inr (JStr ''[]'')"
| "first_text_block (block # rest) =
     (case dict_get block ''type'' JNull of
        Inl e \<Rightarrow> Inl e
      | Inr t \<Rightarrow> if t = JStr ''text'' then dict_get block ''text'' JNull
                 else first_text_block rest)"

definition claude_try :: "(string \<Rightarrow> string + json) \<Rightarrow> http_result \<Rightarrow> string \<Rightarrow> exn + pydict list" where
  \<comment> \<open>the body of the \<open>try\<close> of \<open>_generate_with_claude\<close>\<close>
  "claude_try loads http section_heading =
     (case http_body http of
        Inl e \<Rightarrow> Inl e
      | Inr result \<Rightarrow>
          (case dict_get result ''content'' (JArr []) of
             Inl e \<Rightarrow> Inl e
           | Inr blocks_value \<Rightarrow>
               (case py_iter blocks_value of
                  Inl e \<Rightarrow> Inl e
                | Inr blocks \<Rightarrow>
                    (case first_text_block blocks of
                       Inl e \<Rightarrow> Inl e
                     | Inr text_content \<Rightarrow>
                         (case loads_value loads text_content of
                            Inl e \<Rightarrow> Inl e
                          | Inr qa_pairs \<Rightarrow> stamp section_heading qa_pairs)))))"

definition generate_with_claude ::
  "string option \<Rightarrow> (string \<Rightarrow> string + json) \<Rightarrow> http_result \<Rightarrow> string \<Rightarrow>
   (string \<times> string) list option \<Rightarrow> exn + pydict list" where
  "generate_with_claude api_key loads http text_chunk ctx =
     (if api_key = None \<or> api_key = Some [] then
        Inl (ValueError ''ANTHROPIC_API_KEY not set in environment'')
      else
        (let section_heading = section_heading_of ctx
         in case claude_try loads http section_heading of
              Inl e \<Rightarrow> Inr [error_pair e section_heading]
            | Inr qa_pairs \<Rightarrow> Inr qa_pairs))"

definition py_find :: "char \<Rightarrow> string \<Rightarrow> int" where
  \<comment> \<open>\<open>s.find(c)\<close>\<close>
  "py_find c s = (if c \<in> set s then int (length (takeWhile (\<lambda>x. x \<noteq> c) s)) else - 1)"

definition py_rfind :: "char \<Rightarrow> string \<Rightarrow> int" where
  \<comment> \<open>\<open>s.rfind(c)\<close>\<close>
  "py_rfind c s =
     (if c \<in> set s then int (length s) - 1 - int (length (takeWhile (\<lambda>x. x \<noteq> c) (rev s)))
      else - 1)"

definition clean_json :: "json \<Rightarrow> exn + string" where
  \<comment> \<open>the span from the first \<open>[\<close> to the last \<open>]\<close> of the reply\<close>
  "clean_json generation =
     (case generation of
        JStr g \<Rightarrow>
          (let json_start = py_find (CHR ''['') g;
               json_end = py_rfind (CHR '']'') g + 1
           in if 0 \<le> json_start \<and> json_start < json_end then Inr (py_slice g json_start json_end)
              else Inl (ValueError ''Could not find valid JSON in response''))
      | _ \<Rightarrow> Inl (no_attribute generation ''find''))"

definition ollama_try :: "(string \<Rightarrow> string + json) \<Rightarrow> http_result \<Rightarrow> string \<Rightarrow> exn + pydict list" where
  \<comment> \<open>the body of the \<open>try\<close> of \<open>_generate_with_ollama\<close>\<close>
  "ollama_try loads http section_heading =
     (case http_body http of
        Inl e \<Rightarrow> Inl e
      | Inr result \<Rightarrow>
          (case dict_get result ''response'' (JStr ''[]'') of
             Inl e \<Rightarrow> Inl e
           | Inr generation \<Rightarrow>
               (case clean_json generation of
                  Inl e \<Rightarrow> Inl e
                | Inr clean \<Rightarrow>
                    (case loads_value loads (JStr clean) of
                       Inl e \<Rightarrow> Inl e
                     | Inr qa_pairs \<Rightarrow> stamp section_heading qa_pairs))))"

definition generate_with_ollama ::
  "(string \<Rightarrow> string + json) \<Rightarrow> http_result \<Rightarrow> string \<Rightarrow>
   (string \<times> string) list option \<Rightarrow> exn + pydict list" where
  "generate_with_ollama loads http text_chunk ctx =
     (let section_heading = section_heading_of ctx
      in case ollama_try loads http section_heading of
           Inl e \<Rightarrow> Inr [error_pair e section_heading]
         | Inr qa_pairs \<Rightarrow> Inr qa_pairs)"

definition generate_qa_pairs ::
  "string \<Rightarrow> string option \<Rightarrow> (string \<Rightarrow> string + json) \<Rightarrow> http_result \<Rightarrow> string \<Rightarrow>
   (string \<times> string) list option \<Rightarrow> exn + pydict list" where
  "generate_qa_pairs provider api_key loads http text_chunk ctx =
     (if provider = ''claude'' then generate_with_claude api_key loads http text_chunk ctx
      else if provider = ''ollama'' then generate_with_ollama loads http text_chunk ctx
      else Inl (ValueError (''Unsupported provider: '' @ provider)))"

section \<open>The store\<close>

text \<open>
  The rows of the tables \<open>pdfs\<close> and \<open>qa_pairs\<close>, with the columns that the pipeline
  reads or writes. A value of type \<open>db\<close> is what is committed. Attribute writes on a
  \<open>pdfs\<close> row are followed by \<open>db.commit()\<close> with nothing else pending, so they are
  modelled as writes to the store. Rows handed to \<open>db.add\<close> reach the store at the next
  \<open>db.commit()\<close>, which can fail: \<open>question\<close> and \<open>answer\<close> are declared
  \<open>nullable=False\<close> in \<open>models/pdf.py\<close>. A session is the one a task creates for
  itself, with nothing pending when a function is entered. \<open>extract_text\<close> sets
  \<open>page_count\<close> and leaves the commit to the next \<open>db.commit()\<close> of the task, which
  follows before the task is suspended; it is modelled as a write to the store too.
\<close>

record pdf_row =
  status :: string
  progress :: int
  error :: "string option"
  page_count :: "nat option"

record qa_row =
  qa_pdf_id :: string
  question :: json
  answer :: json
  qa_section :: json
  qa_type :: json

record db =
  pdfs :: "string \<rightharpoonup> pdf_row"
  qa_pairs :: "qa_row list"

definition set_pdf :: "string \<Rightarrow> (pdf_row \<Rightarrow> pdf_row) \<Rightarrow> db \<Rightarrow> db" where
  \<comment> \<open>attribute writes on the row loaded for \<open>pdf_id\<close>, committed\<close>
  "set_pdf pdf_id f d =
     (case pdfs d pdf_id of
        None \<Rightarrow> d
      | Some pdf \<Rightarrow> d\<lparr>pdfs := (pdfs d)(pdf_id \<mapsto> f pdf)\<rparr>)"

section \<open>Cancellation endpoint (\<open>cancel_pdf_processing\<close>)\<close>

record pdf_status =
  resp_id :: string
  resp_status :: string
  resp_progress :: int
  resp_message :: string

definition cancel_pdf_processing :: "string \<Rightarrow> db \<Rightarrow> (exn + pdf_status) \<times> db" where
  "cancel_pdf_processing pdf_id d =
     (case pdfs d pdf_id of
        None \<Rightarrow> (Inl (HTTPException 404 ''PDF not found''), d)
      | Some pdf \<Rightarrow>
          if status pdf \<notin> set [''processing'', ''uploaded'', ''extracting'', ''analyzing''] then
            (Inl (HTTPException 400 ''PDF is not being processed''), d)
          else
            (Inr \<lparr>resp_id = pdf_id, resp_status = ''canceled'', resp_progress = 0,
                  resp_message = ''PDF processing has been canceled''\<rparr>,
             set_pdf pdf_id
               (\<lambda>p. p\<lparr>status := ''canceled'',
                       error := Some ''Processing was canceled by the user''\<rparr>) d))"

section \<open>Generation loop (\<open>QAService.generate_qa_from_chunks\<close>)\<close>

text \<open>
  What a run of the loop meets from outside: the configured provider and credential,
  \<open>json.loads\<close>, the outcome of the HTTP exchange for the chunk at each index, and
  whether a cancellation request for this document is handled while the call for the
  chunk at that index is awaited (the provider call is the only point of the loop at
  which the task is suspended). \<open>scaled i n\<close> is \<open>int((i / n) * 40)\<close>, which Python
  computes in binary floating point; for \<open>i = 0\<close> it is exactly 0. \<open>binds_text v\<close>
  says whether the database driver accepts the value \<open>v\<close>, neither text nor null, for a
  \<open>Text\<close> column, and \<open>session_recovers\<close> whether the session takes further statements
  after a flush has failed (a plain SQLAlchemy session does not until \<open>rollback()\<close> is
  called, and raises \<open>PendingRollbackError\<close>): engine and session are configured in
  \<open>app/database.py\<close>, which is not among the sources.
\<close>

record environment =
  provider :: string
  anthropic_api_key :: "string option"
  json_loads :: "string \<Rightarrow> string + json"
  exchange :: "nat \<Rightarrow> http_result"
  cancel_during :: "nat \<Rightarrow> bool"
  scaled :: "nat \<Rightarrow> nat \<Rightarrow> int"
  binds_text :: "json \<Rightarrow> bool"
  session_recovers :: bool

definition chunk_progress :: "environment \<Rightarrow> nat \<Rightarrow> nat \<Rightarrow> int" where
  \<comment> \<open>\<open>50 + int((i / total_chunks) * 40)\<close>\<close>
  "chunk_progress env i total_chunks = 50 + (if i = 0 then 0 else scaled env i total_chunks)"

definition chunk_status :: "nat \<Rightarrow> nat \<Rightarrow> string" where
  \<comment> \<open>\<open>f"analyzing_chunk_{i+1}_of_{total_chunks}"\<close>\<close>
  "chunk_status i total_chunks =
     ''analyzing_chunk_'' @ py_str (int i + 1) @ ''_of_'' @ py_str (int total_chunks)"

definition make_row :: "string \<Rightarrow> string \<Rightarrow> pydict \<Rightarrow> exn + qa_row" where
  \<comment> \<open>the \<open>QAPair(...)\<close> built from one returned dict\<close>
  "make_row pdf_id chunk_heading qa =
     (case map_of qa ''question'' of
        None \<Rightarrow> Inl (KeyError ''question'')
      | Some q \<Rightarrow>
          (case map_of qa ''answer'' of
             None \<Rightarrow> Inl (KeyError ''answer'')
           | Some a \<Rightarrow>
               Inr \<lparr>qa_pdf_id = pdf_id, question = q, answer = a,
                    qa_section = (case map_of qa ''section'' of Some x \<Rightarrow> x | None \<Rightarrow> JStr chunk_heading),
                    qa_type = (case map_of qa ''type'' of Some t \<Rightarrow> t | None \<Rightarrow> JStr ''unknown'')\<rparr>))"

fun add_pairs :: "string \<Rightarrow> string \<Rightarrow> pydict list \<Rightarrow> qa_row list \<times> exn option" where
  \<comment> \<open>the \<open>for qa in qa_pairs\<close> loop: the rows added, and the exception that stopped it\<close>
  "add_pairs pdf_id chunk_heading [] = ([], None)"
| "add_pairs pdf_id chunk_heading (qa # rest) =
     (case make_row pdf_id chunk_heading qa of
        Inl e \<Rightarrow> ([], Some e)
      | Inr row \<Rightarrow>
          (case add_pairs pdf_id chunk_heading rest of (rows, r) \<Rightarrow> (row # rows, r)))"

definition storable :: "environment \<Rightarrow> json \<Rightarrow> bool" where
  \<comment> \<open>a value that a \<open>Text\<close> column declared \<open>nullable=False\<close> takes\<close>
  "storable env v = (case v of JNull \<Rightarrow> False | JStr t \<Rightarrow> True | _ \<Rightarrow> binds_text env v)"

definition flush_fails :: "environment \<Rightarrow> qa_row list \<Rightarrow> bool" where
  \<comment> \<open>\<open>db.commit()\<close> raises while it inserts these rows, and stores none of them\<close>
  "flush_fails env rows =
     list_ex (\<lambda>r. \<not> storable env (question r) \<or> \<not> storable env (answer r)) rows"

definition flush_error :: exn where
  \<comment> \<open>the exception of a failed flush; its text is the database's\<close>
  "flush_error = DBAPIError ''qa_pairs: a value was refused on insert''"

datatype loop_exit =
    Returned "qa_row list"
  | Finished "qa_row list"

text \<open>
  An exception leaves the loop together with the rows that were added to the session
  and are not committed yet.
\<close>

fun qa_loop ::
  "environment \<Rightarrow> string \<Rightarrow> nat \<Rightarrow> nat \<Rightarrow> chunk list \<Rightarrow> qa_row list \<Rightarrow> db \<Rightarrow>
   (exn \<times> qa_row list + loop_exit) \<times> db" where
  "qa_loop env pdf_id total_chunks i [] all_qa_pairs d = (Inr (Finished all_qa_pairs), d)"
| "qa_loop env pdf_id total_chunks i (c # rest) all_qa_pairs d =
     (case pdfs d pdf_id of
        None \<Rightarrow> (Inl (no_attribute JNull ''status'', []), d)
      | Some pdf \<Rightarrow>
          if status pdf = ''canceled'' then (Inr (Returned []), d)
          else
            (let d1 = set_pdf pdf_id
                        (\<lambda>p. p\<lparr>progress := chunk_progress env i total_chunks,
                                status := chunk_status i total_chunks\<rparr>) d
             in case generate_qa_pairs (provider env) (anthropic_api_key env) (json_loads env)
                       (exchange env i) (content c) (Some [(''heading'', heading c)]) of
                  Inl e \<Rightarrow> (Inl (e, []), d1)
                | Inr returned \<Rightarrow>
                    (let d2 = (if cancel_during env i then snd (cancel_pdf_processing pdf_id d1)
                               else d1)
                     in case add_pairs pdf_id (heading c) returned of
                          (rows, Some e) \<Rightarrow> (Inl (e, rows), d2)
                        | (rows, None) \<Rightarrow>
                            if flush_fails env rows then (Inl (flush_error, []), d2)
                            else
                              qa_loop env pdf_id total_chunks (i + 1) rest (all_qa_pairs @ rows)
                                (d2\<lparr>qa_pairs := qa_pairs d2 @ rows\<rparr>))))"

definition generate_qa_from_chunks ::
  "environment \<Rightarrow> chunk list \<Rightarrow> string \<Rightarrow> db \<Rightarrow>
   (exn \<times> qa_row list + qa_row list) \<times> db" where
  "generate_qa_from_chunks env chunks pdf_id d =
     (case pdfs d pdf_id of
        None \<Rightarrow> (Inl (ValueError (''PDF with ID '' @ pdf_id @ '' not found''), []), d)
      | Some pdf \<Rightarrow>
          (case qa_loop env pdf_id (length chunks) 0 chunks [] d of
             (Inl e, d') \<Rightarrow> (Inl e, d')
           | (Inr (Returned r), d') \<Rightarrow> (Inr r, d')
           | (Inr (Finished all_qa_pairs), d') \<Rightarrow>
               (Inr all_qa_pairs,
                set_pdf pdf_id (\<lambda>p. p\<lparr>status := ''completed'', progress := 100\<rparr>) d')))"

section \<open>Text extraction (\<open>PDFService.extract_text\<close>)\<close>

text \<open>
  The libraries behind extraction are inputs: the text that pdfminer returns, the text
  that tesseract recognises on each page image, the page count that PyPDF2 reads and
  the writing of the result file, each of which may raise instead (\<open>Inl\<close>, \<open>Some\<close>: the
  message). The calls made are recorded in order.
\<close>

record extraction =
  pdfminer_text :: "string + string"
  ocr_pages :: "string + string list"
  reader_pages :: "string + nat"
  write_result :: "string option"

datatype call = CallPdfminer | CallOcr | CallPageCount | CallWriteResult

definition page_marker :: "nat \<Rightarrow> string" where
  \<comment> \<open>\<open>f"\\n\\n--- Page {n} ---\\n\\n"\<close>\<close>
  "page_marker n =
     [CHR 0x0A, CHR 0x0A] @ ''--- Page '' @ py_str (int n) @ '' ---'' @ [CHR 0x0A, CHR 0x0A]"

fun ocr_loop :: "string list \<Rightarrow> nat \<Rightarrow> string \<Rightarrow> string" where
  \<comment> \<open>\<open>for i, image in enumerate(images)\<close>: the marker of page \<open>i + 1\<close>, then its text\<close>
  "ocr_loop [] i text = text"
| "ocr_loop (page_text # rest) i text =
     ocr_loop rest (i + 1) (text @ page_marker (i + 1) @ page_text)"

definition extract_with_ocr :: "string list \<Rightarrow> string" where
  "extract_with_ocr pages = ocr_loop pages 0 []"

definition extract_body :: "extraction \<Rightarrow> call list \<times> nat option \<times> (string + string)" where
  \<comment> \<open>the body of the \<open>try\<close> of \<open>extract_text\<close>: the calls made, the page count if
      \<open>pdf.page_count\<close> was set, and the text returned or the message of the exception\<close>
  "extract_body x =
     (case pdfminer_text x of
        Inl m \<Rightarrow> ([CallPdfminer], None, Inl m)
      | Inr extracted_text \<Rightarrow>
          (let fallback = (extracted_text = [] \<or> length (strip extracted_text) < 100);
               calls = (if fallback then [CallPdfminer, CallOcr] else [CallPdfminer]);
               r = (if fallback then
                      (case ocr_pages x of Inl m \<Rightarrow> Inl m | Inr pages \<Rightarrow> Inr (extract_with_ocr pages))
                    else Inr extracted_text)
           in case r of
                Inl m \<Rightarrow> (calls, None, Inl m)
              | Inr t \<Rightarrow>
                  (case reader_pages x of
                     Inl m \<Rightarrow> (calls @ [CallPageCount], None, Inl m)
                   | Inr n \<Rightarrow>
                       (case write_result x of
                          Some m \<Rightarrow> (calls @ [CallPageCount, CallWriteResult], Some n, Inl m)
                        | None \<Rightarrow> (calls @ [CallPageCount, CallWriteResult], Some n, Inr t)))))"

definition extract_text :: "extraction \<Rightarrow> string \<Rightarrow> db \<Rightarrow> (exn + string) \<times> db" where
  "extract_text x pdf_id d =
     (case pdfs d pdf_id of
        None \<Rightarrow> (Inl (HTTPException 404 ''PDF not found''), d)
      | Some pdf \<Rightarrow>
          (let d1 = set_pdf pdf_id (\<lambda>p. p\<lparr>status := ''processing''\<rparr>) d
           in case extract_body x of
                (calls, pages, r) \<Rightarrow>
                  (let d2 = (case pages of
                               None \<Rightarrow> d1
                             | Some n \<Rightarrow> set_pdf pdf_id (\<lambda>p. p\<lparr>page_count := Some n\<rparr>) d1)
                   in case r of
                        Inr t \<Rightarrow> (Inr t, d2)
                      | Inl m \<Rightarrow>
                          (Inl (HTTPException 500 (''Error extracting text: '' @ m)),
                           set_pdf pdf_id (\<lambda>p. p\<lparr>status := ''failed'', error := Some m\<rparr>) d2))))"

section \<open>Background task (\<open>process_pdf\<close>)\<close>

definition progress_unless_canceled :: "int \<Rightarrow> string \<Rightarrow> db \<Rightarrow> db" where
  \<comment> \<open>\<open>if pdf and pdf.status != "canceled": pdf.progress = n\<close>\<close>
  "progress_unless_canceled n pdf_id d =
     (case pdfs d pdf_id of
        None \<Rightarrow> d
      | Some pdf \<Rightarrow> if status pdf \<noteq> ''canceled'' then set_pdf pdf_id (\<lambda>p. p\<lparr>progress := n\<rparr>) d
                    else d)"

text \<open>
  The handler of \<open>process_pdf\<close> works on the session in which the exception was raised,
  and the source calls no \<open>rollback()\<close>. After a flush that failed inside
  \<open>db.commit()\<close>, a session that does not recover refuses the handler's query with
  \<open>PendingRollbackError\<close>, and nothing is written. Otherwise the handler's
  \<open>db.commit()\<close> writes the status together with the rows still pending in the
  session, or fails with them. The result is the exception that leaves the task, if
  any, and the store.
\<close>

definition on_exception ::
  "environment \<Rightarrow> exn \<Rightarrow> qa_row list \<Rightarrow> string \<Rightarrow> db \<Rightarrow> exn option \<times> db" where
  \<comment> \<open>the \<open>except Exception as e\<close> branch of \<open>process_pdf\<close>\<close>
  "on_exception env e pending pdf_id d =
     (if e = flush_error \<and> \<not> session_recovers env then
        (Some (PendingRollbackError
           ''This Session's transaction has been rolled back due to a previous exception during flush.''),
         d)
      else
        (case pdfs d pdf_id of
           None \<Rightarrow> (None, d)
         | Some pdf \<Rightarrow>
             if flush_fails env pending then (Some flush_error, d)
             else
               (None,
                (set_pdf pdf_id (\<lambda>p. p\<lparr>status := ''failed'', error := Some (exn_str e)\<rparr>) d)
                  \<lparr>qa_pairs := qa_pairs d @ pending\<rparr>)))"

definition process_pdf ::
  "environment \<Rightarrow> extraction \<Rightarrow> string \<Rightarrow> db \<Rightarrow> exn option \<times> db" where
  "process_pdf env x pdf_id d =
     (let d1 = set_pdf pdf_id (\<lambda>p. p\<lparr>status := ''processing'', progress := 10\<rparr>) d
      in case extract_text x pdf_id d1 of
           (Inl e, d2) \<Rightarrow> on_exception env e [] pdf_id d2
         | (Inr t, d2) \<Rightarrow>
             (let d3 = progress_unless_canceled 30 pdf_id d2;
                  chunks = chunk_by_headings t;
                  d4 = progress_unless_canceled 50 pdf_id d3
              in case generate_qa_from_chunks env chunks pdf_id d4 of
                   (Inl (e, pending), d5) \<Rightarrow> on_exception env e pending pdf_id d5
                 | (Inr r, d5) \<Rightarrow> (None, d5)))"

section \<open>Auxiliary notions for the proofs\<close>

definition is_token :: "string \<Rightarrow> bool" where
  "is_token t = (t \<noteq> [] \<and> (\<forall>c\<in>set t. \<not> is_space c))"

definition window :: "string list \<Rightarrow> int \<Rightarrow> int \<Rightarrow> string" where
  "window tokens m i = py_join '' '' (py_slice tokens i (i + m))"

definition claude_reply :: "string \<Rightarrow> http_result" where
  \<comment> \<open>the body of the hosted backend that carries the reply text \<open>t\<close>\<close>
  "claude_reply t = Body (JObj [(''content'', JArr [JObj [(''type'', JStr ''text''), (''text'', JStr t)]])])"

definition ollama_reply :: "string \<Rightarrow> http_result" where
  \<comment> \<open>the body of the local backend that carries the reply text \<open>g\<close>\<close>
  "ollama_reply g = Body (JObj [(''response'', JStr g)])"

definition after_status :: "environment \<Rightarrow> string \<Rightarrow> nat \<Rightarrow> nat \<Rightarrow> db \<Rightarrow> db" where
  \<comment> \<open>the store after the status and progress of the chunk at index \<open>i\<close> were written\<close>
  "after_status env pdf_id n i d =
     set_pdf pdf_id (\<lambda>p. p\<lparr>progress := chunk_progress env i n, status := chunk_status i n\<rparr>) d"

section \<open>Example inputs\<close>

definition scanned :: extraction where
  "scanned = \<lparr>pdfminer_text = Inr ''  '', ocr_pages = Inr [''first'', ''second''],
              reader_pages = Inr 2, write_result = None\<rparr>"

definition generating_doc :: db where
  "generating_doc =
     \<lparr>pdfs = [''doc'' \<mapsto> \<lparr>status = ''analyzing_chunk_1_of_3'', progress = 50, error = None, page_count = None\<rparr>],
      qa_pairs = []\<rparr>"

definition offline :: environment where
  "offline =
     \<lparr>provider = ''claude'', anthropic_api_key = None,
      json_loads = (\<lambda>s. if s = ''[]'' then Inr (JArr []) else Inl ''Expecting value: line 1 column 1 (char 0)''),
      exchange = (\<lambda>i. TransportError ''All connection attempts failed''),
      cancel_during = (\<lambda>i. False),
      scaled = (\<lambda>i n. 0),
      binds_text = (\<lambda>v. False),
      session_recovers = False\<rparr>"

definition blank_scan :: extraction where
  "blank_scan = \<lparr>pdfminer_text = Inr [], ocr_pages = Inr [], reader_pages = Inr 0, write_result = None\<rparr>"

definition canceled_doc :: db where
  "canceled_doc =
     \<lparr>pdfs = [''doc'' \<mapsto> \<lparr>status = ''canceled'', progress = 0,
                          error = Some ''Processing was canceled by the user'',
                          page_count = None\<rparr>],
      qa_pairs = []\<rparr>"

definition uploaded_doc :: db where
  "uploaded_doc =
     \<lparr>pdfs = [''doc'' \<mapsto> \<lparr>status = ''uploaded'', progress = 0, error = None, page_count = None\<rparr>], qa_pairs = []\<rparr>"

definition one_chunk :: "chunk list" where
  "one_chunk = [\<lparr>heading = ''Introduction'', content = ''Some text.''\<rparr>]"

definition chunked_doc :: db where
  "chunked_doc =
     \<lparr>pdfs = [''doc'' \<mapsto> \<lparr>status = ''processing'', progress = 50, error = None, page_count = None\<rparr>], qa_pairs = []\<rparr>"

section \<open>Properties of fixed-size chunking\<close>

lemma py_split_nil: "\<forall>c\<in>set s. is_space c \<Longrightarrow> py_split s = []"
proof -
  assume "\<forall>c\<in>set s. is_space c"
  then have h: "dropWhile is_space s = []" by simp
  show ?thesis by (subst py_split.simps) (simp only: h list.case)
qed

lemma py_split_space: "is_space x \<Longrightarrow> py_split (x # r) = py_split r"
  by (subst py_split.simps, subst (2) py_split.simps) simp

lemma py_split_tok:
  assumes "t \<noteq> []" "\<forall>c\<in>set t. \<not> is_space c" "is_space x"
  shows "py_split (t @ x # r) = t # py_split r"
proof -
  obtain c cs where t: "t @ x # r = c # cs" "\<not> is_space c"
    using assms(1,2) by (cases t) auto
  have d: "dropWhile is_space (t @ x # r) = c # cs"
    using t by simp
  have tw: "takeWhile (\<lambda>x. \<not> is_space x) (t @ x # r) = t"
    using assms(2,3) by (simp add: takeWhile_append2 takeWhile_tail)
  have dw: "dropWhile (\<lambda>x. \<not> is_space x) (t @ x # r) = x # r"
    using assms(2,3) by (simp add: dropWhile_append2)
  have "py_split (t @ x # r) = takeWhile (\<lambda>x. \<not> is_space x) (c # cs) #
          py_split (dropWhile (\<lambda>x. \<not> is_space x) (c # cs))"
    by (subst py_split.simps) (simp only: d list.case)
  also have "\<dots> = t # py_split (x # r)"
    unfolding t(1)[symmetric] tw dw ..
  finally show ?thesis using py_split_space[OF assms(3)] by simp
qed

lemma py_split_last:
  assumes "t \<noteq> []" "\<forall>c\<in>set t. \<not> is_space c"
  shows "py_split t = [t]"
proof -
  obtain c cs where t: "t = c # cs" "\<not> is_space c"
    using assms by (cases t) auto
  have d: "dropWhile is_space t = c # cs" using t by simp
  have tw: "takeWhile (\<lambda>x. \<not> is_space x) t = t" using assms(2) by simp
  have dw: "dropWhile (\<lambda>x. \<not> is_space x) t = []" using assms(2) by simp
  have "py_split t = takeWhile (\<lambda>x. \<not> is_space x) (c # cs) #
          py_split (dropWhile (\<lambda>x. \<not> is_space x) (c # cs))"
    by (subst py_split.simps) (simp only: d list.case)
  also have "\<dots> = t # py_split []"
    unfolding t(1)[symmetric] tw dw ..
  finally show ?thesis by (simp add: py_split_nil)
qed

lemma space_is_space: "is_space (CHR '' '')" by (simp add: is_space_def)

lemma split_join:
  "\<forall>t\<in>set ts. is_token t \<Longrightarrow> py_split (py_join '' '' ts) = ts"
proof (induction ts)
  case Nil then show ?case by (simp add: py_split_nil)
next
  case (Cons x ts)
  show ?case
  proof (cases ts)
    case Nil
    then show ?thesis using Cons.prems by (simp add: py_split_last is_token_def)
  next
    case (Cons y ys)
    have "py_split (x @ CHR '' '' # py_join '' '' ts) = x # py_split (py_join '' '' ts)"
      using Cons.prems by (intro py_split_tok) (auto simp: is_token_def space_is_space)
    then show ?thesis using Cons.IH Cons.prems Cons by simp
  qed
qed

lemma py_split_tokens: "\<forall>t\<in>set (py_split s). is_token t"
proof (induction s rule: py_split.induct)
  case (1 s)
  show ?case
  proof (cases "dropWhile is_space s")
    case Nil
    have "py_split s = []" by (subst py_split.simps) (simp only: Nil list.case)
    then show ?thesis by simp
  next
    case (Cons c cs)
    have nsp: "\<not> is_space c"
      using Cons hd_dropWhile [of is_space s] by (metis list.sel(1) list.simps(3))
    have tk: "is_token (takeWhile (\<lambda>x. \<not> is_space x) (c # cs))"
      using nsp by (auto simp: is_token_def dest: set_takeWhileD)
    have ih: "\<forall>t\<in>set (py_split (dropWhile (\<lambda>x. \<not> is_space x) (c # cs))). is_token t"
      using 1 Cons by blast
    have "py_split s = takeWhile (\<lambda>x. \<not> is_space x) (c # cs) #
          py_split (dropWhile (\<lambda>x. \<not> is_space x) (c # cs))"
      by (subst py_split.simps) (simp only: Cons list.case)
    then show ?thesis using tk ih by simp
  qed
qed

lemma size_loop_contents:
  "map content (size_loop tokens m is acc) =
     map content acc @ map (\<lambda>i. py_join '' '' (py_slice tokens i (i + m))) is"
  by (induction "is" arbitrary: acc) (simp_all add: Let_def)

lemma size_loop_length: "length (size_loop tokens m is acc) = length acc + length is"
  by (induction "is" arbitrary: acc) (simp_all add: Let_def)

lemma py_slice_window:
  "0 \<le> i \<Longrightarrow> 0 \<le> m \<Longrightarrow> py_slice xs i (i + m) = take (nat m) (drop (nat i) xs)"
proof -
  assume i: "0 \<le> i" and m: "0 \<le> m"
  define n where "n = int (length xs)"
  have "take (nat (min (i + m) n - min i n)) (drop (nat (min i n)) xs) = take (nat m) (drop (nat i) xs)"
  proof (cases "i + m \<le> n")
    case True
    then have "min (i + m) n - min i n = m" using i m by simp
    moreover have "min i n = i" using True m by simp
    ultimately show ?thesis by simp
  next
    case False
    show ?thesis
    proof (cases "i \<le> n")
      case True
      have l: "length (drop (nat i) xs) = nat (n - i)" using i True by (simp add: n_def nat_diff_distrib)
      have "min (i + m) n - min i n = n - i" using False True by simp
      moreover have "min i n = i" using True by simp
      moreover have "nat (n - i) \<le> nat m" using False by simp
      ultimately show ?thesis using l by simp
    next
      case False
      then have "drop (nat i) xs = []" "drop (nat (min i n)) xs = []" using i by (simp_all add: n_def)
      then show ?thesis by simp
    qed
  qed
  then show ?thesis using i m by (simp add: py_slice_def Let_def n_def)
qed

lemma range_from_length:
  "0 < step \<Longrightarrow> i \<le> n \<Longrightarrow> int (length (range_from i n step)) = \<lceil>real_of_int (n - i) / real_of_int step\<rceil>"
proof (induction i n step rule: range_from.induct)
  case (1 i n step)
  show ?case
  proof (cases "i < n")
    case False
    then have "i = n" using 1(3) by simp
    then show ?thesis by (subst range_from.simps) simp
  next
    case True
    show ?thesis
    proof (cases "i + step \<le> n")
      case True
      have "int (length (range_from (i + step) n step)) = \<lceil>real_of_int (n - (i + step)) / real_of_int step\<rceil>"
        using 1 \<open>i < n\<close> True by simp
      also have "real_of_int (n - (i + step)) / real_of_int step = real_of_int (n - i) / real_of_int step - 1"
        using 1(2) by (simp add: field_simps)
      finally show ?thesis using \<open>i < n\<close> 1(2) by (subst range_from.simps) simp
    next
      case False
      have e: "range_from (i + step) n step = []" using False by (subst range_from.simps) simp
      have "0 < real_of_int (n - i) / real_of_int step" "real_of_int (n - i) / real_of_int step \<le> 1"
        using \<open>i < n\<close> False 1(2) by (simp_all add: field_simps)
      then have "\<lceil>real_of_int (n - i) / real_of_int step\<rceil> = 1" by (simp add: ceiling_eq_iff)
      then show ?thesis using \<open>i < n\<close> 1(2) e by (subst range_from.simps) simp
    qed
  qed
qed

lemma remove_overlap_cong:
  "map content cs = map content ds \<Longrightarrow> remove_overlap k cs = remove_overlap k ds"
proof (induction k cs arbitrary: ds rule: remove_overlap.induct)
  case (1 k)
  then show ?case by simp
next
  case (2 k c)
  then obtain d where "ds = [d]" "content d = content c" by (cases ds) auto
  then show ?case by simp
next
  case (3 k c d cs)
  then obtain c' d' ds' where ds: "ds = c' # d' # ds'" "content c' = content c"
    "map content (d # cs) = map content (d' # ds')"
    by (cases ds; cases "tl ds") auto
  then show ?case using 3(1)[of "d' # ds'"] by simp
qed

lemma split_window:
  assumes "\<forall>t\<in>set tokens. is_token t" "0 \<le> i" "0 \<le> m"
  shows "py_split (window tokens m i) = take (nat m) (drop (nat i) tokens)"
proof -
  have "\<forall>t\<in>set (take (nat m) (drop (nat i) tokens)). is_token t"
    using assms(1) by (meson in_set_dropD in_set_takeD)
  then show ?thesis
    using assms(2,3) by (simp add: window_def py_slice_window split_join)
qed

lemma remove_overlap_windows:
  assumes "\<forall>t\<in>set tokens. is_token t" "0 < step" "step \<le> m" "0 \<le> i" "n = int (length tokens)"
  shows "remove_overlap (nat step)
           (map (\<lambda>j. \<lparr>heading = h j, content = window tokens m j\<rparr>) (range_from i n step))
         = drop (nat i) tokens"
  using assms
proof (induction i n step rule: range_from.induct)
  case (1 i n step)
  let ?mk = "\<lambda>j. \<lparr>heading = h j, content = window tokens m j\<rparr>"
  have m0: "0 \<le> m" using 1 by simp
  have sw: "py_split (content (?mk i)) = take (nat m) (drop (nat i) tokens)"
    using split_window[OF 1(2) 1(5) m0] by simp
  show ?case
  proof (cases "i < n")
    case False
    then have "range_from i n step = []" by (subst range_from.simps) simp
    moreover have "drop (nat i) tokens = []" using False 1(6) by simp
    ultimately show ?thesis by simp
  next
    case True
    have r: "range_from i n step = i # range_from (i + step) n step"
      using True 1(3) by (subst range_from.simps) simp
    have ih: "remove_overlap (nat step) (map ?mk (range_from (i + step) n step)) = drop (nat (i + step)) tokens"
      using 1 True by simp
    show ?thesis
    proof (cases "i + step < n")
      case False
      then have e: "range_from (i + step) n step = []" by (subst range_from.simps) simp
      have "length (drop (nat i) tokens) \<le> nat m" using False 1(4,5,6) by simp
      then show ?thesis using r e sw by simp
    next
      case True
      have r2: "range_from (i + step) n step = (i + step) # range_from (i + step + step) n step"
        using True 1(3) by (subst range_from.simps) simp
      have t: "take (nat step) (take (nat m) (drop (nat i) tokens)) = take (nat step) (drop (nat i) tokens)"
        using 1(4) by (simp add: min_def)
      have "nat (i + step) = nat i + nat step" using 1(3,5) by (simp add: nat_add_distrib)
      then have "drop (nat (i + step)) tokens = drop (nat step) (drop (nat i) tokens)"
        by (simp add: add.commute)
      then have d: "take (nat step) (drop (nat i) tokens) @ drop (nat (i + step)) tokens = drop (nat i) tokens"
        by (simp only: append_take_drop_id)
      have "remove_overlap (nat step) (map ?mk (range_from i n step))
            = take (nat step) (py_split (content (?mk i))) @
              remove_overlap (nat step) (map ?mk (range_from (i + step) n step))"
        by (simp add: r r2)
      also have "\<dots> = take (nat step) (drop (nat i) tokens) @ drop (nat (i + step)) tokens"
        by (simp only: sw t ih)
      finally show ?thesis using d by simp
    qed
  qed
qed

lemma size_loop_map_content:
  "map content (size_loop tokens m is []) = map (window tokens m) is"
  by (simp add: size_loop_contents window_def)

text \<open>
  Claim C6, with the overlap taken non-negative. For every text chunked by the fixed-size
  strategy with \<open>0 \<le> overlap < max_tokens\<close>: the call returns, the number of chunks is
  the ceiling of the number of whitespace tokens divided by \<open>max_tokens - overlap\<close>, and
  the first \<open>max_tokens - overlap\<close> tokens of every chunk but the last, followed by all
  tokens of the last, are the tokens of the text.
\<close>

theorem chunk_by_size_reconstructs:
  assumes "0 \<le> overlap" and "overlap < max_tokens"
  shows "\<exists>chunks. chunk_by_size text max_tokens overlap = Inr chunks \<and>
           int (length chunks) =
             \<lceil>real (length (py_split text)) / real_of_int (max_tokens - overlap)\<rceil> \<and>
           remove_overlap (nat (max_tokens - overlap)) chunks = py_split text"
proof -
  define tokens where "tokens = py_split text"
  define step where "step = max_tokens - overlap"
  define chunks where "chunks = size_loop tokens max_tokens (range_from 0 (int (length tokens)) step) []"
  have step: "0 < step" "step \<le> max_tokens" using assms by (simp_all add: step_def)
  have run: "chunk_by_size text max_tokens overlap = Inr chunks"
    using step(1) by (simp add: chunk_by_size_def py_range_def Let_def tokens_def step_def chunks_def)
  have len: "int (length chunks) = \<lceil>real (length tokens) / real_of_int step\<rceil>"
    using range_from_length[of step 0 "int (length tokens)"] step(1)
    by (simp add: chunks_def size_loop_length)
  have toks: "\<forall>t\<in>set tokens. is_token t"
    unfolding tokens_def by (rule py_split_tokens)
  have "map content chunks
        = map content (map (\<lambda>j. \<lparr>heading = [], content = window tokens max_tokens j\<rparr>)
            (range_from 0 (int (length tokens)) step))"
    by (simp add: chunks_def size_loop_map_content comp_def)
  then have "remove_overlap (nat step) chunks
        = remove_overlap (nat step) (map (\<lambda>j. \<lparr>heading = [], content = window tokens max_tokens j\<rparr>)
            (range_from 0 (int (length tokens)) step))"
    by (rule remove_overlap_cong)
  also have "\<dots> = drop (nat 0) tokens"
    by (rule remove_overlap_windows[OF toks step]) simp_all
  finally have rec: "remove_overlap (nat step) chunks = tokens" by simp
  show ?thesis using run len rec by (simp add: tokens_def step_def)
qed

lemma split_example: "py_split ''a b c d e'' = [''a'', ''b'', ''c'', ''d'', ''e'']" by code_simp
lemma chunk_by_size_example: "chunk_by_size ''a b c d e'' 3 1 =
     Inr [\<lparr>heading = ''Chunk 1'', content = ''a b c''\<rparr>,
      \<lparr>heading = ''Chunk 2'', content = ''c d e''\<rparr>,
      \<lparr>heading = ''Chunk 3'', content = ''e''\<rparr>]" by code_simp

theorem chunk_by_size_reconstructs_witness:
  "(0::int) \<le> 1 \<and> (1::int) < 3 \<and>
   (\<exists>chunks. chunk_by_size ''a b c d e'' 3 1 = Inr chunks \<and>
      int (length chunks) = \<lceil>real (length (py_split ''a b c d e'')) / real_of_int (3 - 1)\<rceil> \<and>
      remove_overlap (nat (3 - 1)) chunks = py_split ''a b c d e'')"
  using chunk_by_size_reconstructs [of 1 3 "''a b c d e''"] by simp

lemma chunk_by_size_gap: "chunk_by_size ''a b c'' 2 (- 1) = Inr [\<lparr>heading = ''Chunk 1'', content = ''a b''\<rparr>]"
  by code_simp
lemma split_abc: "py_split ''a b c'' = [''a'', ''b'', ''c'']" by code_simp
lemma split_ab: "py_split ''a b'' = [''a'', ''b'']" by code_simp

text \<open>
  With a negative overlap the window advances by more than its width: the text
  \<open>a b c\<close> with \<open>max_tokens = 2\<close> and \<open>overlap = -1\<close> gives the single chunk \<open>a b\<close>.
\<close>

theorem chunk_by_size_negative_overlap_counterexample:
  "(- 1 :: int) < 2 \<and> ''a b c'' \<noteq> [] \<and>
   \<not> (\<exists>chunks. chunk_by_size ''a b c'' 2 (- 1) = Inr chunks \<and>
          int (length chunks) = \<lceil>real (length (py_split ''a b c'')) / real_of_int (2 - (- 1))\<rceil> \<and>
          remove_overlap (nat (2 - (- 1))) chunks = py_split ''a b c'')"
  by (simp add: chunk_by_size_gap split_abc split_ab)

section \<open>Properties of heading-based chunking\<close>

lemma space_not_hash: "is_space c \<Longrightarrow> c \<noteq> CHR ''#''"
  by (auto simp: is_space_def)

lemma space_not_upper: "is_space c \<Longrightarrow> \<not> is_upper c"
  by (auto simp: is_space_def is_upper_def less_eq_char_def Let_def)

lemma takeWhile_none: "\<forall>c\<in>set xs. \<not> p c \<Longrightarrow> takeWhile p xs = []"
  by (cases xs) auto

lemma ends_hash_ws:
  assumes "\<forall>c\<in>set s. is_space c"
  shows "ends (Rep (\<lambda>c. c = CHR ''#'') 1 True) s j = []"
proof -
  have "\<forall>c\<in>set (drop j s). \<not> (c = CHR ''#'')"
    using assms space_not_hash by (meson in_set_dropD)
  then have "takeWhile (\<lambda>c. c = CHR ''#'') (drop j s) = []" by (rule takeWhile_none)
  then show ?thesis by simp
qed

lemma ends_word_ws:
  assumes "\<forall>c\<in>set s. is_space c" "w \<noteq> []" "\<not> is_space (hd w)"
  shows "ends (Str w) s j = []"
proof -
  have "take (length w) (drop j s) \<noteq> w"
  proof
    assume e: "take (length w) (drop j s) = w"
    have "hd w \<in> set w" using assms(2) by simp
    then have "hd w \<in> set s" using e by (metis in_set_dropD in_set_takeD)
    then show False using assms(1,3) by blast
  qed
  then show ?thesis by simp
qed

lemma ends_upper_ws:
  assumes "\<forall>c\<in>set s. is_space c"
  shows "ends (Cls is_upper) s j = []"
  using assms space_not_upper by (auto)

lemma ends_combined_ws:
  assumes "\<forall>c\<in>set s. is_space c"
  shows "ends combined_pattern s i = []"
proof -
  have c: "\<not> is_space (CHR ''C'')" "\<not> is_space (CHR ''S'')" by (simp_all add: is_space_def)
  have 1: "ends markdown_heading s i = []"
    unfolding markdown_heading_def using ends_hash_ws[OF assms] by simp
  have "ends (Alt (Str ''CHAPTER'') (Str ''Section'')) s j = []" for j
    using ends_word_ws[OF assms, of "''CHAPTER''" j] ends_word_ws[OF assms, of "''Section''" j] c
    by simp
  then have 2: "ends chapter_heading s i = []"
    unfolding chapter_heading_def by (simp del: ends.simps(1,7) add: ends.simps(6))
  have 3: "ends caps_heading s i = []"
    unfolding caps_heading_def using ends_upper_ws[OF assms] by (simp del: ends.simps(2))
  show ?thesis unfolding combined_pattern_def using 1 2 3 by simp
qed

lemma finditer_ws:
  assumes "\<forall>c\<in>set s. is_space c"
  shows "finditer_from combined_pattern s pos = []"
proof (induction "length s + 1 - pos" arbitrary: pos)
  case 0
  then have "length s < pos" by simp
  then show ?case by (subst finditer_from.simps) simp
next
  case (Suc k)
  then have "finditer_from combined_pattern s (pos + 1) = []" by simp
  then show ?case
    by (subst finditer_from.simps) (simp add: ends_combined_ws[OF assms])
qed

lemma strip_ws: "\<forall>c\<in>set s. is_space c \<Longrightarrow> strip s = []"
proof -
  assume "\<forall>c\<in>set s. is_space c"
  then show ?thesis by (auto simp: strip_def dest: set_dropWhileD)
qed

lemma headings_loop_last_end:
  "fst (snd (headings_loop text ms chunks last_end cur)) = (if ms = [] then last_end else snd (last ms))"
  by (induction ms arbitrary: chunks last_end cur) (auto simp: Let_def)

lemma headings_loop_heading:
  "snd (snd (headings_loop text ms chunks last_end cur)) =
     (if ms = [] then cur else strip (take (snd (last ms) - fst (last ms)) (drop (fst (last ms)) text)))"
  by (induction ms arbitrary: chunks last_end cur) (auto simp: Let_def)

text \<open>
  Claim C10, for a last heading match that ends before the end of the text. The
  heading-based chunker can return a chunk with empty content. A
  non-empty text of whitespace only gives the single chunk with heading
  \<open>Introduction\<close> and empty content. When the last heading match ends before the end
  of the text and only whitespace follows it, the last chunk has empty content: the
  trailing chunk is appended without the test for emptiness that the chunks between
  headings pass.
\<close>

theorem chunk_by_headings_empty_content:
  "(text \<noteq> [] \<and> (\<forall>c\<in>set text. is_space c) \<longrightarrow>
      chunk_by_headings text = [\<lparr>heading = ''Introduction'', content = []\<rparr>]) \<and>
   (finditer_from combined_pattern text 0 \<noteq> [] \<and>
    snd (last (finditer_from combined_pattern text 0)) < length text \<and>
    (\<forall>c\<in>set (drop (snd (last (finditer_from combined_pattern text 0))) text). is_space c) \<longrightarrow>
      chunk_by_headings text \<noteq> [] \<and> content (last (chunk_by_headings text)) = [])"
proof (intro conjI impI)
  assume a: "text \<noteq> [] \<and> (\<forall>c\<in>set text. is_space c)"
  then have "finditer_from combined_pattern text 0 = []" by (simp add: finditer_ws)
  then show "chunk_by_headings text = [\<lparr>heading = ''Introduction'', content = []\<rparr>]"
    using a by (simp add: chunk_by_headings_def strip_ws)
next
  let ?ms = "finditer_from combined_pattern text 0"
  assume a: "?ms \<noteq> [] \<and> snd (last ?ms) < length text \<and>
    (\<forall>c\<in>set (drop (snd (last ?ms)) text). is_space c)"
  obtain chunks le cur where h: "headings_loop text ?ms [] 0 ''Introduction'' = (chunks, le, cur)"
    by (cases "headings_loop text ?ms [] 0 ''Introduction''") auto
  have le: "le = snd (last ?ms)" using headings_loop_last_end[of "text" "?ms" "[]" 0 "''Introduction''"] h a by simp
  have c: "chunk_by_headings text = chunks @ [\<lparr>heading = cur, content = strip (drop le text)\<rparr>]"
    using h le a by (simp add: chunk_by_headings_def)
  have "strip (drop le text) = []" using a le by (simp add: strip_ws)
  then show "chunk_by_headings text \<noteq> []" "content (last (chunk_by_headings text)) = []"
    using c by simp_all
qed

lemma finditer_trailing_example:
  "finditer_from combined_pattern ''# A\<newline>foo\<newline># B\<newline>\<newline>'' 0 = [(0, 4), (7, 12)]"
  by code_simp

lemma newline_is_space: "is_space (CHR 0x0A)"
  by (simp add: is_space_def)

theorem chunk_by_headings_empty_content_witness:
  "chunk_by_headings '' \<newline> '' = [\<lparr>heading = ''Introduction'', content = []\<rparr>] \<and>
   chunk_by_headings ''# A\<newline>foo\<newline># B\<newline>\<newline>'' \<noteq> [] \<and>
   content (last (chunk_by_headings ''# A\<newline>foo\<newline># B\<newline>\<newline>'')) = []"
  using chunk_by_headings_empty_content [of "'' \<newline> ''"]
        chunk_by_headings_empty_content [of "''# A\<newline>foo\<newline># B\<newline>\<newline>''"]
  by (simp add: finditer_trailing_example newline_is_space space_is_space)

text \<open>
  Claim C8. The text \<open>"# Intro\\nHello world.\\n\\n# Details\\nMore text here."\<close> is
  chunked by headings into exactly two chunks, in order: heading \<open># Intro\<close> with content
  \<open>Hello world.\<close>, then heading \<open># Details\<close> with content \<open>More text here.\<close>
\<close>

theorem chunk_by_headings_example:
  "chunk_by_headings ''# Intro\<newline>Hello world.\<newline>\<newline># Details\<newline>More text here.'' =
     [\<lparr>heading = ''# Intro'', content = ''Hello world.''\<rparr>,
      \<lparr>heading = ''# Details'', content = ''More text here.''\<rparr>]"
  by code_simp

lemma finditer_no_tail_example:
  "finditer_from combined_pattern ''# A\<newline>foo\<newline># B\<newline>'' 0 = [(0, 4), (7, 12)]"
  by code_simp

lemma chunks_no_tail_example:
  "chunk_by_headings ''# A\<newline>foo\<newline># B\<newline>'' = [\<lparr>heading = ''# A'', content = ''foo''\<rparr>]"
  by code_simp

text \<open>
  When the last heading match ends at the end of the text, nothing follows it and no
  trailing chunk is appended: the last chunk of \<open>"# A\\nfoo\\n# B\\n"\<close> has content
  \<open>foo\<close>.
\<close>

theorem chunk_by_headings_no_tail_counterexample:
  "finditer_from combined_pattern ''# A\<newline>foo\<newline># B\<newline>'' 0 \<noteq> [] \<and>
   drop (snd (last (finditer_from combined_pattern ''# A\<newline>foo\<newline># B\<newline>'' 0)))
     ''# A\<newline>foo\<newline># B\<newline>'' = [] \<and>
   chunk_by_headings ''# A\<newline>foo\<newline># B\<newline>'' = [\<lparr>heading = ''# A'', content = ''foo''\<rparr>] \<and>
   content (last (chunk_by_headings ''# A\<newline>foo\<newline># B\<newline>'')) \<noteq> []"
  by (simp add: finditer_no_tail_example chunks_no_tail_example)

section \<open>Properties of text extraction\<close>

lemma ocr_loop_enumerate:
  "ocr_loop pages i acc =
     acc @ concat (map (\<lambda>(k, page_text). page_marker k @ page_text) (enumerate (i + 1) pages))"
proof (induction pages arbitrary: i acc)
  case Nil
  then show ?case by simp
next
  case (Cons p pages)
  show ?case by (simp add: Cons.IH)
qed

text \<open>
  Claim C7. Extraction calls pdfminer first. The OCR fallback is called exactly when
  pdfminer returned a text that is empty or whose length after \<open>strip()\<close> is below
  100, and then it is the second call. The text of the fallback is, for the pages in
  order and numbered from 1, the marker \<open>--- Page k ---\<close> (between two blank lines)
  followed by the text recognised on page \<open>k\<close>; when the remaining steps succeed it is
  the text returned, and otherwise the text of pdfminer is.
\<close>

theorem extract_text_ocr_fallback:
  "fst (extract_body x) \<noteq> [] \<and> hd (fst (extract_body x)) = CallPdfminer \<and>
   (CallOcr \<in> set (fst (extract_body x)) \<longleftrightarrow>
      (\<exists>t. pdfminer_text x = Inr t \<and> (t = [] \<or> length (strip t) < 100))) \<and>
   (CallOcr \<in> set (fst (extract_body x)) \<longrightarrow>
      take 2 (fst (extract_body x)) = [CallPdfminer, CallOcr]) \<and>
   (\<forall>t pages n. pdfminer_text x = Inr t \<and> (t = [] \<or> length (strip t) < 100) \<and>
       ocr_pages x = Inr pages \<and> reader_pages x = Inr n \<and> write_result x = None \<longrightarrow>
       snd (snd (extract_body x)) = Inr (extract_with_ocr pages)) \<and>
   (\<forall>t n. pdfminer_text x = Inr t \<and> \<not> (t = [] \<or> length (strip t) < 100) \<and>
       reader_pages x = Inr n \<and> write_result x = None \<longrightarrow>
       snd (snd (extract_body x)) = Inr t) \<and>
   extract_with_ocr pages' =
     concat (map (\<lambda>(k, page_text). page_marker k @ page_text) (enumerate 1 pages'))"
  by (auto simp: extract_body_def Let_def extract_with_ocr_def ocr_loop_enumerate
           split: sum.splits option.splits)

lemma marker_example: "page_marker 2 = ''\<newline>\<newline>--- Page 2 ---\<newline>\<newline>''"
  by code_simp

theorem extract_text_ocr_fallback_witness:
  "fst (extract_body scanned) = [CallPdfminer, CallOcr, CallPageCount, CallWriteResult] \<and>
   snd (snd (extract_body scanned)) =
     Inr ''\<newline>\<newline>--- Page 1 ---\<newline>\<newline>first\<newline>\<newline>--- Page 2 ---\<newline>\<newline>second''"
proof -
  have c: "fst (extract_body scanned) = [CallPdfminer, CallOcr, CallPageCount, CallWriteResult]"
    by (simp add: extract_body_def scanned_def strip_def space_is_space)
  have "concat (map (\<lambda>(k, page_text). page_marker k @ page_text) (enumerate 1 [''first'', ''second'']))
      = ''\<newline>\<newline>--- Page 1 ---\<newline>\<newline>first\<newline>\<newline>--- Page 2 ---\<newline>\<newline>second''"
    by code_simp
  then show ?thesis
    using c extract_text_ocr_fallback [of scanned "[''first'', ''second'']"]
    by (simp add: scanned_def strip_def space_is_space)
qed

section \<open>Properties of the generation providers\<close>

lemma claude_try_reply:
  "claude_try loads (claude_reply t) h =
     (case loads t of Inl m \<Rightarrow> Inl (ValueError m) | Inr v \<Rightarrow> stamp h v)"
  by (simp add: claude_try_def claude_reply_def http_body_def dict_get_def py_iter_def
        loads_value_def split: sum.splits)

lemma ollama_try_reply:
  "ollama_try loads (ollama_reply g) h =
     (case clean_json (JStr g) of
        Inl e \<Rightarrow> Inl e
      | Inr clean \<Rightarrow> (case loads clean of Inl m \<Rightarrow> Inl (ValueError m) | Inr v \<Rightarrow> stamp h v))"
  by (simp add: ollama_try_def ollama_reply_def http_body_def dict_get_def
        loads_value_def split: sum.splits)

lemma generate_qa_pairs_degrades:
  assumes "backend = ''claude'' \<and> key = Some k \<and> k \<noteq> [] \<or> backend = ''ollama''"
  shows "(\<exists>qa. generate_qa_pairs backend key loads http text_chunk ctx = Inr qa) \<and>
         (\<forall>e. (if backend = ''claude'' then claude_try loads http (section_heading_of ctx)
               else ollama_try loads http (section_heading_of ctx)) = Inl e \<longrightarrow>
              generate_qa_pairs backend key loads http text_chunk ctx =
                Inr [[(''question'', JStr ''Error generating Q&A''),
                      (''answer'', JStr (''API error: '' @ exn_str e)),
                      (''type'', JStr ''error''),
                      (''section'', JStr (section_heading_of ctx))]]) \<and>
         (\<forall>m. http = TransportError m \<or> http = StatusError m \<or> http = BodyNotJson m \<longrightarrow>
              generate_qa_pairs backend key loads http text_chunk ctx =
                Inr [[(''question'', JStr ''Error generating Q&A''),
                      (''answer'', JStr (''API error: '' @ m)),
                      (''type'', JStr ''error''),
                      (''section'', JStr (section_heading_of ctx))]]) \<and>
         (\<forall>t m. loads t = Inl m \<and>
                 (backend = ''claude'' \<and> http = claude_reply t \<or>
                  backend = ''ollama'' \<and> (\<exists>g. http = ollama_reply g \<and> clean_json (JStr g) = Inr t)) \<longrightarrow>
              generate_qa_pairs backend key loads http text_chunk ctx =
                Inr [[(''question'', JStr ''Error generating Q&A''),
                      (''answer'', JStr (''API error: '' @ m)),
                      (''type'', JStr ''error''),
                      (''section'', JStr (section_heading_of ctx))]])"
proof (intro conjI allI impI)
  show "\<exists>qa. generate_qa_pairs backend key loads http text_chunk ctx = Inr qa"
    using assms
    by (auto simp: generate_qa_pairs_def generate_with_claude_def generate_with_ollama_def Let_def
             split: sum.splits)
next
  fix e
  assume "(if backend = ''claude'' then claude_try loads http (section_heading_of ctx)
           else ollama_try loads http (section_heading_of ctx)) = Inl e"
  then show "generate_qa_pairs backend key loads http text_chunk ctx =
                Inr [[(''question'', JStr ''Error generating Q&A''),
                      (''answer'', JStr (''API error: '' @ exn_str e)),
                      (''type'', JStr ''error''),
                      (''section'', JStr (section_heading_of ctx))]]"
    using assms
    by (auto simp: generate_qa_pairs_def generate_with_claude_def generate_with_ollama_def Let_def
             error_pair_def split: if_splits)
next
  fix m
  assume "http = TransportError m \<or> http = StatusError m \<or> http = BodyNotJson m"
  then show "generate_qa_pairs backend key loads http text_chunk ctx =
                Inr [[(''question'', JStr ''Error generating Q&A''),
                      (''answer'', JStr (''API error: '' @ m)),
                      (''type'', JStr ''error''),
                      (''section'', JStr (section_heading_of ctx))]]"
    using assms
    by (auto simp: generate_qa_pairs_def generate_with_claude_def generate_with_ollama_def Let_def
             error_pair_def claude_try_def ollama_try_def http_body_def)
next
  fix t m
  assume "loads t = Inl m \<and>
                 (backend = ''claude'' \<and> http = claude_reply t \<or>
                  backend = ''ollama'' \<and> (\<exists>g. http = ollama_reply g \<and> clean_json (JStr g) = Inr t))"
  then show "generate_qa_pairs backend key loads http text_chunk ctx =
                Inr [[(''question'', JStr ''Error generating Q&A''),
                      (''answer'', JStr (''API error: '' @ m)),
                      (''type'', JStr ''error''),
                      (''section'', JStr (section_heading_of ctx))]]"
    using assms
    by (auto simp: generate_qa_pairs_def generate_with_claude_def generate_with_ollama_def Let_def
             error_pair_def claude_try_reply ollama_try_reply)
qed

lemma clean_json_example: "clean_json (JStr ''Sure: []'') = Inr ''[]''"
  by (simp add: clean_json_def py_find_def py_rfind_def py_slice_def Let_def)

lemma stamp_empty: "stamp h (JArr []) = Inr []"
  by (simp add: stamp_def py_iter_def)

text \<open>
  Claim C4 says that both backends parse only the span from the first \<open>[\<close> to the last
  \<open>]\<close> of the reply. The local backend does; the hosted backend hands the whole reply
  text to \<open>json.loads\<close>. On the reply \<open>Sure: []\<close>, which \<open>json.loads\<close> rejects as a
  whole and whose span \<open>[]\<close> it parses to the empty list, the local backend returns no
  pair and the hosted backend returns the degraded pair of type \<open>error\<close>.
\<close>

theorem claude_reply_not_sliced:
  assumes "loads ''Sure: []'' = Inl m" and "loads ''[]'' = Inr (JArr [])" and "k \<noteq> []"
  shows "generate_qa_pairs ''ollama'' key loads (ollama_reply ''Sure: []'') text_chunk ctx = Inr [] \<and>
         generate_qa_pairs ''claude'' (Some k) loads (claude_reply ''Sure: []'') text_chunk ctx =
           Inr [[(''question'', JStr ''Error generating Q&A''),
                 (''answer'', JStr (''API error: '' @ m)),
                 (''type'', JStr ''error''),
                 (''section'', JStr (section_heading_of ctx))]]"
  using assms
  by (simp add: generate_qa_pairs_def generate_with_claude_def generate_with_ollama_def
        claude_try_reply ollama_try_reply clean_json_example stamp_empty error_pair_def)

theorem claude_reply_not_sliced_witness:
  "generate_qa_pairs ''ollama'' None (json_loads offline) (ollama_reply ''Sure: []'') ''Some text.''
       (Some [(''heading'', ''Introduction'')]) = Inr [] \<and>
   generate_qa_pairs ''claude'' (Some ''sk-test'') (json_loads offline) (claude_reply ''Sure: []'')
       ''Some text.'' (Some [(''heading'', ''Introduction'')]) =
     Inr [[(''question'', JStr ''Error generating Q&A''),
           (''answer'', JStr ''API error: Expecting value: line 1 column 1 (char 0)''),
           (''type'', JStr ''error''),
           (''section'', JStr ''Introduction'')]]"
  using claude_reply_not_sliced
          [of "json_loads offline" "''Expecting value: line 1 column 1 (char 0)''" "''sk-test''"
              None "''Some text.''" "Some [(''heading'', ''Introduction'')]"]
  by (simp add: offline_def section_heading_of_def)

lemma ollama_span:
  assumes "CHR ''['' \<in> set g" and "py_find (CHR ''['') g < py_rfind (CHR '']'') g + 1"
  shows "clean_json (JStr g) =
           Inr (take (nat (py_rfind (CHR '']'') g + 1 - py_find (CHR ''['') g))
                  (drop (nat (py_find (CHR ''['') g)) g))"
proof -
  have f: "0 \<le> py_find (CHR ''['') g" using assms(1) by (simp add: py_find_def)
  have "py_find (CHR ''['') g \<le> int (length g)"
    using assms(1) length_takeWhile_le [of "\<lambda>x. x \<noteq> CHR ''[''" g] by (simp add: py_find_def)
  moreover have "py_rfind (CHR '']'') g + 1 \<le> int (length g)"
    by (simp add: py_rfind_def)
  ultimately show ?thesis
    using assms(2) f by (simp add: clean_json_def Let_def py_slice_def min_def)
qed

section \<open>Properties of cancellation and of the background task\<close>

lemma set_pdf_row [simp]:
  "pdfs d pdf_id = Some pdf \<Longrightarrow> pdfs (set_pdf pdf_id f d) pdf_id = Some (f pdf)"
  by (simp add: set_pdf_def)

lemma set_pdf_qa [simp]: "qa_pairs (set_pdf pdf_id f d) = qa_pairs d"
  by (simp add: set_pdf_def split: option.splits)

lemma set_pdf_upd:
  "pdfs d pdf_id = Some pdf \<Longrightarrow> set_pdf pdf_id f d = d\<lparr>pdfs := (pdfs d)(pdf_id \<mapsto> f pdf)\<rparr>"
  by (simp add: set_pdf_def)

lemma chunk_status_not_canceled: "chunk_status i n \<noteq> ''canceled''"
  by (simp add: chunk_status_def)

lemma chunk_status_not_cancelable:
  "chunk_status i n \<notin> set [''processing'', ''uploaded'', ''extracting'', ''analyzing'']"
  by (simp add: chunk_status_def)

lemma chunk_status_example: "chunk_status 0 3 = ''analyzing_chunk_1_of_3''"
  by code_simp

lemma chunk_status_single: "chunk_status 0 (Suc 0) = ''analyzing_chunk_1_of_1''"
  by code_simp

lemma chunk_progress_first: "chunk_progress env 0 n = 50"
  by (simp add: chunk_progress_def)

text \<open>
  Claim C1 says that a cancellation request is accepted while the status is
  \<open>analyzing_chunk_i_of_n\<close>. The endpoint accepts the four statuses \<open>processing\<close>,
  \<open>uploaded\<close>, \<open>extracting\<close> and \<open>analyzing\<close>; the status that the generation loop
  writes is none of them. For every document in that status the request is answered
  with HTTP 400 and the store is left as it was: the status is not \<open>canceled\<close> and the
  progress is not reset.
\<close>

theorem cancel_rejected_while_generating:
  assumes "pdfs d pdf_id = Some pdf" and "status pdf = chunk_status i n"
  shows "cancel_pdf_processing pdf_id d =
           (Inl (HTTPException 400 ''PDF is not being processed''), d)"
  using assms chunk_status_not_cancelable [of i n]
  by (simp add: cancel_pdf_processing_def del: set_simps)

theorem cancel_rejected_while_generating_witness:
  "cancel_pdf_processing ''doc'' generating_doc =
     (Inl (HTTPException 400 ''PDF is not being processed''), generating_doc)"
  using cancel_rejected_while_generating
          [of generating_doc "''doc''"
              "\<lparr>status = ''analyzing_chunk_1_of_3'', progress = 50, error = None,
                page_count = None\<rparr>" 0 3]
  by (simp add: generating_doc_def chunk_status_example)

lemma cancel_keeps_analyzing:
  assumes "pdfs d pdf_id = Some pdf" and "status pdf = chunk_status i n"
  shows "snd (cancel_pdf_processing pdf_id d) = d"
  using assms chunk_status_not_cancelable [of i n]
  by (simp add: cancel_pdf_processing_def del: set_simps)

lemma after_status_row:
  "pdfs d pdf_id = Some pdf \<Longrightarrow>
   pdfs (after_status env pdf_id n i d) pdf_id =
     Some (pdf\<lparr>progress := chunk_progress env i n, status := chunk_status i n\<rparr>)"
  by (simp add: after_status_def)

lemma after_status_qa: "qa_pairs (after_status env pdf_id n i d) = qa_pairs d"
  by (simp add: after_status_def)

lemma cancel_after_status:
  assumes "pdfs d pdf_id = Some pdf"
  shows "snd (cancel_pdf_processing pdf_id (after_status env pdf_id n i d)) =
         after_status env pdf_id n i d"
  by (rule cancel_keeps_analyzing [OF after_status_row [OF assms]]) simp

lemma qa_loop_step:
  assumes "pdfs d pdf_id = Some pdf" and "status pdf \<noteq> ''canceled''"
  shows "qa_loop env pdf_id n i (c # rest) acc d =
     (case generate_qa_pairs (provider env) (anthropic_api_key env) (json_loads env)
             (exchange env i) (content c) (Some [(''heading'', heading c)]) of
        Inl e \<Rightarrow> (Inl (e, []), after_status env pdf_id n i d)
      | Inr returned \<Rightarrow>
          (case add_pairs pdf_id (heading c) returned of
             (rows, Some e) \<Rightarrow> (Inl (e, rows), after_status env pdf_id n i d)
           | (rows, None) \<Rightarrow>
               if flush_fails env rows then (Inl (flush_error, []), after_status env pdf_id n i d)
               else
                 qa_loop env pdf_id n (i + 1) rest (acc @ rows)
                   ((after_status env pdf_id n i d)\<lparr>qa_pairs := qa_pairs d @ rows\<rparr>)))"
proof -
  note c = cancel_after_status [OF assms(1), of env n i]
  show ?thesis
    using assms
    by (simp add: Let_def after_status_def [symmetric] c after_status_qa
             split: sum.splits prod.splits option.splits)
qed

lemma qa_loop_runs_through:
  assumes "pdfs d pdf_id = Some pdf" and "status pdf \<noteq> ''canceled''"
  shows "\<exists>pdf'. pdfs (snd (qa_loop env pdf_id n i chunks acc d)) pdf_id = Some pdf' \<and>
           status pdf' \<noteq> ''canceled'' \<and>
           ((\<exists>e. fst (qa_loop env pdf_id n i chunks acc d) = Inl e) \<or>
            (\<exists>rows. fst (qa_loop env pdf_id n i chunks acc d) = Inr (Finished rows)))"
  using assms
proof (induction chunks arbitrary: i acc d pdf)
  case Nil
  then show ?case by simp
next
  case (Cons c rest)
  let ?row = "pdf\<lparr>progress := chunk_progress env i n, status := chunk_status i n\<rparr>"
  have r1: "pdfs (after_status env pdf_id n i d) pdf_id = Some ?row"
    by (rule after_status_row [OF Cons.prems(1)])
  have ns: "status ?row \<noteq> ''canceled''" by (simp add: chunk_status_not_canceled)
  note step = qa_loop_step [OF Cons.prems, of env n i c rest acc]
  show ?case
  proof (cases "generate_qa_pairs (provider env) (anthropic_api_key env) (json_loads env)
                  (exchange env i) (content c) (Some [(''heading'', heading c)])")
    case (Inl e)
    then show ?thesis using step r1 ns by simp
  next
    case (Inr returned)
    obtain rows r where ap: "add_pairs pdf_id (heading c) returned = (rows, r)"
      by (cases "add_pairs pdf_id (heading c) returned") auto
    have r2: "pdfs ((after_status env pdf_id n i d)\<lparr>qa_pairs := qa_pairs d @ rows\<rparr>) pdf_id = Some ?row"
      using r1 by simp
    show ?thesis
    proof (cases r)
      case (Some e)
      then show ?thesis using step Inr ap r1 ns by simp
    next
      case None
      show ?thesis
      proof (cases "flush_fails env rows")
        case True
        then show ?thesis using step Inr ap None r1 ns by simp
      next
        case False
        from Cons.IH [OF r2 ns, of "i + 1" "acc @ rows"]
        show ?thesis using step Inr ap None False by simp
      qed
    qed
  qed
qed

lemma generate_qa_from_chunks_status:
  assumes "pdfs d pdf_id = Some pdf" and "status pdf \<noteq> ''canceled''"
  shows "\<exists>pdf'. pdfs (snd (generate_qa_from_chunks env chunks pdf_id d)) pdf_id = Some pdf' \<and>
           status pdf' \<noteq> ''canceled''"
proof -
  obtain res d' where q: "qa_loop env pdf_id (length chunks) 0 chunks [] d = (res, d')"
    by (cases "qa_loop env pdf_id (length chunks) 0 chunks [] d") auto
  from qa_loop_runs_through [OF assms, of env "length chunks" 0 chunks "[]"] q
  obtain pdf' where p: "pdfs d' pdf_id = Some pdf'" "status pdf' \<noteq> ''canceled''"
    and r: "(\<exists>e. res = Inl e) \<or> (\<exists>rows. res = Inr (Finished rows))"
    by auto
  from r show ?thesis
  proof
    assume "\<exists>e. res = Inl e"
    then show ?thesis using assms(1) q p by (auto simp: generate_qa_from_chunks_def)
  next
    assume "\<exists>rows. res = Inr (Finished rows)"
    then show ?thesis using assms(1) q p by (auto simp: generate_qa_from_chunks_def)
  qed
qed

lemma on_exception_status:
  assumes "pdfs d pdf_id = Some pdf" and "status pdf \<noteq> ''canceled''"
  shows "\<exists>pdf'. pdfs (snd (on_exception env e pending pdf_id d)) pdf_id = Some pdf' \<and>
           status pdf' \<noteq> ''canceled''"
  using assms by (simp add: on_exception_def)

lemma progress_unless_canceled_row:
  "pdfs d pdf_id = Some pdf \<Longrightarrow> status pdf \<noteq> ''canceled'' \<Longrightarrow>
   pdfs (progress_unless_canceled k pdf_id d) pdf_id = Some (pdf\<lparr>progress := k\<rparr>)"
  by (simp add: progress_unless_canceled_def)

lemma extract_text_result:
  assumes "pdfs d pdf_id = Some pdf"
  shows "(\<exists>e d' pdf'. extract_text x pdf_id d = (Inl e, d') \<and> pdfs d' pdf_id = Some pdf' \<and>
            status pdf' = ''failed'') \<or>
         (\<exists>t d' pdf'. extract_text x pdf_id d = (Inr t, d') \<and> pdfs d' pdf_id = Some pdf' \<and>
            status pdf' = ''processing'')"
proof -
  obtain calls pages r where b: "extract_body x = (calls, pages, r)"
    by (cases "extract_body x") auto
  show ?thesis
    using assms b by (cases pages; cases r) (simp_all add: extract_text_def Let_def)
qed

lemma extract_text_status:
  assumes "pdfs d pdf_id = Some pdf"
  shows "\<exists>pdf'. pdfs (snd (extract_text x pdf_id d)) pdf_id = Some pdf' \<and>
           (status pdf' = ''processing'' \<or> status pdf' = ''failed'')"
  using extract_text_result [OF assms, of x] by auto

text \<open>
  Claim C2 says that no operation of the pipeline leaves a terminal status.
  \<open>extract_text\<close> and \<open>process_pdf\<close> write the status without reading it: for every
  document, whatever its status before, the status after \<open>extract_text\<close> is
  \<open>processing\<close> or \<open>failed\<close>, and the status after \<open>process_pdf\<close> is not
  \<open>canceled\<close>. A document canceled before its background task starts does not stay
  canceled.
\<close>

theorem process_pdf_leaves_terminal_status:
  assumes "pdfs d pdf_id = Some pdf"
  shows "(\<exists>pdf'. pdfs (snd (extract_text x pdf_id d)) pdf_id = Some pdf' \<and>
            (status pdf' = ''processing'' \<or> status pdf' = ''failed'')) \<and>
         (\<exists>pdf'. pdfs (snd (process_pdf env x pdf_id d)) pdf_id = Some pdf' \<and>
            status pdf' \<noteq> ''canceled'')"
proof
  show "\<exists>pdf'. pdfs (snd (extract_text x pdf_id d)) pdf_id = Some pdf' \<and>
            (status pdf' = ''processing'' \<or> status pdf' = ''failed'')"
    by (rule extract_text_status [OF assms])
next
  let ?d1 = "set_pdf pdf_id (\<lambda>p. p\<lparr>status := ''processing'', progress := 10\<rparr>) d"
  have r1: "pdfs ?d1 pdf_id = Some (pdf\<lparr>status := ''processing'', progress := 10\<rparr>)"
    using assms by simp
  from extract_text_result [OF r1, of x]
  show "\<exists>pdf'. pdfs (snd (process_pdf env x pdf_id d)) pdf_id = Some pdf' \<and>
            status pdf' \<noteq> ''canceled''"
  proof (elim disjE exE conjE)
    fix e d2 pdf2
    assume e: "extract_text x pdf_id ?d1 = (Inl e, d2)"
      and r2: "pdfs d2 pdf_id = Some pdf2" and s2: "status pdf2 = ''failed''"
    have "status pdf2 \<noteq> ''canceled''" using s2 by simp
    from on_exception_status [OF r2 this]
    show ?thesis using e by (simp add: process_pdf_def Let_def)
  next
    fix t d2 pdf2
    assume e: "extract_text x pdf_id ?d1 = (Inr t, d2)"
      and r2: "pdfs d2 pdf_id = Some pdf2" and s2: "status pdf2 = ''processing''"
    have n2: "status pdf2 \<noteq> ''canceled''" using s2 by simp
    let ?d3 = "progress_unless_canceled 30 pdf_id d2"
    have r3: "pdfs ?d3 pdf_id = Some (pdf2\<lparr>progress := 30\<rparr>)"
      by (rule progress_unless_canceled_row [OF r2 n2])
    have n3: "status (pdf2\<lparr>progress := 30\<rparr>) \<noteq> ''canceled''" using s2 by simp
    let ?d4 = "progress_unless_canceled 50 pdf_id ?d3"
    have r4: "pdfs ?d4 pdf_id = Some (pdf2\<lparr>progress := 30\<rparr>\<lparr>progress := 50\<rparr>)"
      by (rule progress_unless_canceled_row [OF r3 n3])
    have ns: "status (pdf2\<lparr>progress := 30\<rparr>\<lparr>progress := 50\<rparr>) \<noteq> ''canceled''" using s2 by simp
    obtain res d5 where g: "generate_qa_from_chunks env (chunk_by_headings t) pdf_id ?d4 = (res, d5)"
      by (cases "generate_qa_from_chunks env (chunk_by_headings t) pdf_id ?d4") auto
    from generate_qa_from_chunks_status [OF r4 ns, of env "chunk_by_headings t"] g
    obtain pdf' where p: "pdfs d5 pdf_id = Some pdf'" "status pdf' \<noteq> ''canceled''"
      by auto
    have pp: "process_pdf env x pdf_id d =
        (case res of Inl (e, pending) \<Rightarrow> on_exception env e pending pdf_id d5
                   | Inr r \<Rightarrow> (None, d5))"
      using e g by (simp add: process_pdf_def Let_def)
    show ?thesis
    proof (cases res)
      case (Inl ep)
      obtain e' pending where ep: "ep = (e', pending)" by (cases ep) auto
      from on_exception_status [OF p, of env e' pending]
      show ?thesis using pp Inl ep by simp
    next
      case (Inr r)
      then show ?thesis using pp p by simp
    qed
  qed
qed

theorem process_pdf_leaves_terminal_status_witness:
  "cancel_pdf_processing ''doc'' canceled_doc =
     (Inl (HTTPException 400 ''PDF is not being processed''), canceled_doc) \<and>
   (\<exists>pdf'. pdfs (snd (extract_text blank_scan ''doc'' canceled_doc)) ''doc'' = Some pdf' \<and>
      (status pdf' = ''processing'' \<or> status pdf' = ''failed'')) \<and>
   (\<exists>pdf'. pdfs (snd (process_pdf offline blank_scan ''doc'' canceled_doc)) ''doc'' = Some pdf' \<and>
      status pdf' \<noteq> ''canceled'')"
  using process_pdf_leaves_terminal_status
          [of canceled_doc "''doc''"
              "\<lparr>status = ''canceled'', progress = 0,
                error = Some ''Processing was canceled by the user'', page_count = None\<rparr>"
              blank_scan offline]
  by (simp add: canceled_doc_def cancel_pdf_processing_def)

section \<open>Properties of the generation loop\<close>

text \<open>
  Claim C9. With an empty sequence of chunks and the document present, the generation
  stage raises nothing, returns no pair, leaves the table of pairs as it is and sets
  status \<open>completed\<close> and progress 100; and when extraction succeeds with a text that
  chunks to the empty sequence, the whole background task ends so.
\<close>

theorem empty_chunks_complete:
  assumes "pdfs d pdf_id = Some pdf"
  shows "generate_qa_from_chunks env [] pdf_id d =
           (Inr [], d\<lparr>pdfs := (pdfs d)(pdf_id \<mapsto> pdf\<lparr>status := ''completed'', progress := 100\<rparr>)\<rparr>) \<and>
         (\<forall>calls n t. extract_body x = (calls, Some n, Inr t) \<and> chunk_by_headings t = [] \<longrightarrow>
            process_pdf env x pdf_id d =
              (None,
               d\<lparr>pdfs := (pdfs d)(pdf_id \<mapsto>
                     pdf\<lparr>status := ''completed'', progress := 100, page_count := Some n\<rparr>)\<rparr>))"
proof (intro conjI allI impI)
  show "generate_qa_from_chunks env [] pdf_id d =
           (Inr [], d\<lparr>pdfs := (pdfs d)(pdf_id \<mapsto> pdf\<lparr>status := ''completed'', progress := 100\<rparr>)\<rparr>)"
    using assms by (simp add: generate_qa_from_chunks_def set_pdf_upd)
next
  fix calls n t
  assume a: "extract_body x = (calls, Some n, Inr t) \<and> chunk_by_headings t = []"
  then show "process_pdf env x pdf_id d =
              (None,
               d\<lparr>pdfs := (pdfs d)(pdf_id \<mapsto>
                     pdf\<lparr>status := ''completed'', progress := 100, page_count := Some n\<rparr>)\<rparr>)"
    using assms
    by (cases pdf)
       (simp add: process_pdf_def extract_text_def Let_def set_pdf_def
          progress_unless_canceled_def generate_qa_from_chunks_def)
qed

lemma blank_scan_text:
  "extract_body blank_scan =
     ([CallPdfminer, CallOcr, CallPageCount, CallWriteResult], Some 0, Inr [])"
  by (simp add: extract_body_def blank_scan_def extract_with_ocr_def)

lemma chunk_by_headings_nil: "chunk_by_headings [] = []"
  by code_simp

theorem empty_chunks_complete_witness:
  "generate_qa_from_chunks offline [] ''doc'' uploaded_doc =
     (Inr [], \<lparr>pdfs = [''doc'' \<mapsto> \<lparr>status = ''completed'', progress = 100, error = None,
                                   page_count = None\<rparr>],
               qa_pairs = []\<rparr>) \<and>
   process_pdf offline blank_scan ''doc'' uploaded_doc =
     (None,
      \<lparr>pdfs = [''doc'' \<mapsto> \<lparr>status = ''completed'', progress = 100, error = None,
                          page_count = Some 0\<rparr>],
       qa_pairs = []\<rparr>)"
  using empty_chunks_complete
          [of uploaded_doc "''doc''"
              "\<lparr>status = ''uploaded'', progress = 0, error = None, page_count = None\<rparr>"
              offline blank_scan]
  by (simp add: uploaded_doc_def blank_scan_text chunk_by_headings_nil)

lemma canceled_doc_completes:
  "process_pdf offline blank_scan ''doc'' canceled_doc =
     (None,
      \<lparr>pdfs = [''doc'' \<mapsto> \<lparr>status = ''completed'', progress = 100,
                           error = Some ''Processing was canceled by the user'',
                           page_count = Some 0\<rparr>],
       qa_pairs = []\<rparr>)"
  by (simp add: process_pdf_def extract_text_def Let_def set_pdf_def canceled_doc_def
        progress_unless_canceled_def generate_qa_from_chunks_def blank_scan_text
        chunk_by_headings_nil)

lemma claude_without_key:
  assumes "provider env = ''claude''"
      and "anthropic_api_key env = None \<or> anthropic_api_key env = Some []"
  shows "generate_qa_pairs (provider env) (anthropic_api_key env) loads http text_chunk ctx =
           Inl (ValueError ''ANTHROPIC_API_KEY not set in environment'')"
  using assms by (auto simp: generate_qa_pairs_def generate_with_claude_def)

lemma missing_key_first_chunk:
  assumes "provider env = ''claude''"
      and "anthropic_api_key env = None \<or> anthropic_api_key env = Some []"
      and p: "pdfs d pdf_id = Some pdf" "status pdf \<noteq> ''canceled''"
  shows "generate_qa_from_chunks env (c # rest) pdf_id d =
           (Inl (ValueError ''ANTHROPIC_API_KEY not set in environment'', []),
            d\<lparr>pdfs := (pdfs d)(pdf_id \<mapsto>
                  pdf\<lparr>progress := 50, status := chunk_status 0 (length (c # rest))\<rparr>)\<rparr>)"
proof -
  have "qa_loop env pdf_id (length (c # rest)) 0 (c # rest) [] d =
          (Inl (ValueError ''ANTHROPIC_API_KEY not set in environment'', []),
           after_status env pdf_id (length (c # rest)) 0 d)"
    by (simp only: qa_loop_step [OF p] claude_without_key [OF assms(1,2)] sum.case)
  then show ?thesis
    using p by (simp add: generate_qa_from_chunks_def after_status_def set_pdf_upd
                  chunk_progress_first del: qa_loop.simps)
qed

text \<open>
  Claim C5, as the code has it. With the hosted backend and no credential, for a
  document that is present and not canceled: a run over at least one chunk raises
  \<open>ValueError: ANTHROPIC_API_KEY not set in environment\<close> from the provider call of the
  first chunk, after the status \<open>analyzing_chunk_1_of_n\<close> and progress 50 of that chunk
  were written, with no pair added and no degraded pair made of it; a run over no
  chunk raises nothing and completes; and the background task records status
  \<open>failed\<close> with that message.
\<close>

theorem missing_key_fails_at_first_chunk:
  assumes "provider env = ''claude''"
      and "anthropic_api_key env = None \<or> anthropic_api_key env = Some []"
      and "pdfs d pdf_id = Some pdf"
      and "status pdf \<noteq> ''canceled''"
  shows "generate_qa_from_chunks env (c # rest) pdf_id d =
           (Inl (ValueError ''ANTHROPIC_API_KEY not set in environment'', []),
            d\<lparr>pdfs := (pdfs d)(pdf_id \<mapsto>
                  pdf\<lparr>progress := 50, status := chunk_status 0 (length (c # rest))\<rparr>)\<rparr>) \<and>
         generate_qa_from_chunks env [] pdf_id d =
           (Inr [], d\<lparr>pdfs := (pdfs d)(pdf_id \<mapsto> pdf\<lparr>status := ''completed'', progress := 100\<rparr>)\<rparr>) \<and>
         (\<forall>calls n t. extract_body x = (calls, Some n, Inr t) \<and> chunk_by_headings t \<noteq> [] \<longrightarrow>
            process_pdf env x pdf_id d =
              (None,
               d\<lparr>pdfs := (pdfs d)(pdf_id \<mapsto>
                     pdf\<lparr>status := ''failed'', progress := 50,
                         error := Some ''ANTHROPIC_API_KEY not set in environment'',
                         page_count := Some n\<rparr>)\<rparr>))"
proof (intro conjI allI impI)
  show "generate_qa_from_chunks env (c # rest) pdf_id d =
           (Inl (ValueError ''ANTHROPIC_API_KEY not set in environment'', []),
            d\<lparr>pdfs := (pdfs d)(pdf_id \<mapsto>
                  pdf\<lparr>progress := 50, status := chunk_status 0 (length (c # rest))\<rparr>)\<rparr>)"
    by (rule missing_key_first_chunk [OF assms])
next
  show "generate_qa_from_chunks env [] pdf_id d =
           (Inr [], d\<lparr>pdfs := (pdfs d)(pdf_id \<mapsto> pdf\<lparr>status := ''completed'', progress := 100\<rparr>)\<rparr>)"
    using assms(3) by (simp add: generate_qa_from_chunks_def set_pdf_upd)
next
  fix calls n t
  assume a: "extract_body x = (calls, Some n, Inr t) \<and> chunk_by_headings t \<noteq> []"
  then obtain c' rest' where ch: "chunk_by_headings t = c' # rest'"
    by (cases "chunk_by_headings t") auto
  let ?d4 = "d\<lparr>pdfs := (pdfs d)(pdf_id \<mapsto>
                pdf\<lparr>status := ''processing'', progress := 50, page_count := Some n\<rparr>)\<rparr>"
  have g: "generate_qa_from_chunks env (c' # rest') pdf_id ?d4 =
        (Inl (ValueError ''ANTHROPIC_API_KEY not set in environment'', []),
         ?d4\<lparr>pdfs := (pdfs ?d4)(pdf_id \<mapsto>
               pdf\<lparr>status := ''processing'', progress := 50, page_count := Some n\<rparr>
                  \<lparr>progress := 50, status := chunk_status 0 (length (c' # rest'))\<rparr>)\<rparr>)"
    by (rule missing_key_first_chunk [OF assms(1,2)]) simp_all
  show "process_pdf env x pdf_id d =
              (None,
               d\<lparr>pdfs := (pdfs d)(pdf_id \<mapsto>
                     pdf\<lparr>status := ''failed'', progress := 50,
                         error := Some ''ANTHROPIC_API_KEY not set in environment'',
                         page_count := Some n\<rparr>)\<rparr>)"
    using assms(3) a ch g
    by (cases pdf)
       (simp add: process_pdf_def extract_text_def Let_def set_pdf_def flush_fails_def
          flush_error_def progress_unless_canceled_def on_exception_def del: qa_loop.simps)
qed

theorem missing_key_fails_at_first_chunk_witness:
  "provider offline = ''claude'' \<and> anthropic_api_key offline = None \<and>
   generate_qa_from_chunks offline one_chunk ''doc'' chunked_doc =
     (Inl (ValueError ''ANTHROPIC_API_KEY not set in environment'', []),
      \<lparr>pdfs = [''doc'' \<mapsto> \<lparr>status = ''analyzing_chunk_1_of_1'', progress = 50, error = None,
                          page_count = None\<rparr>],
       qa_pairs = []\<rparr>)"
  using missing_key_fails_at_first_chunk
          [of offline chunked_doc "''doc''"
              "\<lparr>status = ''processing'', progress = 50, error = None, page_count = None\<rparr>"
              "\<lparr>heading = ''Introduction'', content = ''Some text.''\<rparr>" "[]"]
  by (simp add: offline_def chunked_doc_def one_chunk_def chunk_status_single)

lemma first_chunk_state:
  "generate_qa_from_chunks offline one_chunk ''doc'' chunked_doc =
     (Inl (ValueError ''ANTHROPIC_API_KEY not set in environment'', []),
      \<lparr>pdfs = [''doc'' \<mapsto> \<lparr>status = ''analyzing_chunk_1_of_1'', progress = 50, error = None,
                          page_count = None\<rparr>],
       qa_pairs = []\<rparr>)"
  by (simp add: generate_qa_from_chunks_def one_chunk_def chunked_doc_def offline_def
        generate_qa_pairs_def generate_with_claude_def set_pdf_def Let_def
        chunk_progress_def chunk_status_single)

theorem missing_key_status_written_counterexample:
  "provider offline = ''claude'' \<and> anthropic_api_key offline = None \<and>
   fst (generate_qa_from_chunks offline one_chunk ''doc'' chunked_doc) =
     Inl (ValueError ''ANTHROPIC_API_KEY not set in environment'', []) \<and>
   snd (generate_qa_from_chunks offline one_chunk ''doc'' chunked_doc) \<noteq> chunked_doc \<and>
   map_option status (pdfs (snd (generate_qa_from_chunks offline one_chunk ''doc'' chunked_doc)) ''doc'')
     = Some ''analyzing_chunk_1_of_1'' \<and>
   map_option status (pdfs chunked_doc ''doc'') = Some ''processing''"
proof -
  have "\<lparr>pdfs = [''doc'' \<mapsto> \<lparr>status = ''analyzing_chunk_1_of_1'', progress = 50, error = None,
                          page_count = None\<rparr>],
       qa_pairs = []\<rparr> \<noteq> chunked_doc"
  proof
    assume "\<lparr>pdfs = [''doc'' \<mapsto> \<lparr>status = ''analyzing_chunk_1_of_1'', progress = 50, error = None,
                          page_count = None\<rparr>],
       qa_pairs = []\<rparr> = chunked_doc"
    then have "pdfs \<lparr>pdfs = [''doc'' \<mapsto> \<lparr>status = ''analyzing_chunk_1_of_1'', progress = 50, error = None,
                          page_count = None\<rparr>],
       qa_pairs = []\<rparr> ''doc'' = pdfs chunked_doc ''doc''" by simp
    then show False by (simp add: chunked_doc_def)
  qed
  then show ?thesis
    by (simp add: first_chunk_state) (simp add: offline_def chunked_doc_def)
qed

lemma heading_context: "section_heading_of (Some [(''heading'', h)]) = h"
  by (simp add: section_heading_of_def)

lemma add_error_pair:
  "add_pairs pdf_id h [error_pair e h] =
     ([\<lparr>qa_pdf_id = pdf_id, question = JStr ''Error generating Q&A'',
        answer = JStr (''API error: '' @ exn_str e), qa_section = JStr h,
        qa_type = JStr ''error''\<rparr>], None)"
  by (simp add: error_pair_def make_row_def)

lemma degraded_pair_continues:
  assumes b: "provider env = ''claude'' \<and> anthropic_api_key env = Some k \<and> k \<noteq> [] \<or>
              provider env = ''ollama''"
      and p: "pdfs d pdf_id = Some pdf" "status pdf \<noteq> ''canceled''"
      and t: "(if provider env = ''claude''
               then claude_try (json_loads env) (exchange env i) (heading c)
               else ollama_try (json_loads env) (exchange env i) (heading c)) = Inl e"
  shows "qa_loop env pdf_id n i (c # rest) acc d =
           qa_loop env pdf_id n (i + 1) rest
             (acc @ [\<lparr>qa_pdf_id = pdf_id, question = JStr ''Error generating Q&A'',
                      answer = JStr (''API error: '' @ exn_str e), qa_section = JStr (heading c),
                      qa_type = JStr ''error''\<rparr>])
             ((set_pdf pdf_id
                 (\<lambda>p. p\<lparr>progress := chunk_progress env i n, status := chunk_status i n\<rparr>) d)
              \<lparr>qa_pairs := qa_pairs d @
                 [\<lparr>qa_pdf_id = pdf_id, question = JStr ''Error generating Q&A'',
                   answer = JStr (''API error: '' @ exn_str e), qa_section = JStr (heading c),
                   qa_type = JStr ''error''\<rparr>]\<rparr>)"
proof -
  have g: "generate_qa_pairs (provider env) (anthropic_api_key env) (json_loads env)
             (exchange env i) (content c) (Some [(''heading'', heading c)]) =
           Inr [error_pair e (heading c)]"
    using b t
    by (auto simp: generate_qa_pairs_def generate_with_claude_def generate_with_ollama_def
          Let_def heading_context split: if_splits)
  have nf: "\<not> flush_fails env
               [\<lparr>qa_pdf_id = pdf_id, question = JStr ''Error generating Q&A'',
                 answer = JStr (''API error: '' @ exn_str e), qa_section = JStr (heading c),
                 qa_type = JStr ''error''\<rparr>]"
    by (simp add: flush_fails_def storable_def)
  show ?thesis
    by (simp only: qa_loop_step [OF p] g sum.case add_error_pair prod.case option.case
          after_status_def nf if_False)
qed

text \<open>
  Claim C3. For the hosted backend with its credential set and for the local backend,
  \<open>generate_qa_pairs\<close> never raises. Whatever exception the request or the handling of
  the response raises (the transport, an HTTP error status such as a refused
  credential, a body that is not JSON, a reply that \<open>json.loads\<close> rejects), the result
  is exactly one pair, of type \<open>error\<close>, whose answer is \<open>API error:\<close> followed by the
  message of the exception. The generation loop stores that pair as one row and goes
  on with the next chunk.
\<close>

theorem provider_errors_degrade:
  assumes "backend = ''claude'' \<and> key = Some k \<and> k \<noteq> [] \<or> backend = ''ollama''"
  shows "(\<exists>qa. generate_qa_pairs backend key loads http text_chunk ctx = Inr qa) \<and>
         (\<forall>e. (if backend = ''claude'' then claude_try loads http (section_heading_of ctx)
               else ollama_try loads http (section_heading_of ctx)) = Inl e \<longrightarrow>
              generate_qa_pairs backend key loads http text_chunk ctx =
                Inr [[(''question'', JStr ''Error generating Q&A''),
                      (''answer'', JStr (''API error: '' @ exn_str e)),
                      (''type'', JStr ''error''),
                      (''section'', JStr (section_heading_of ctx))]]) \<and>
         (\<forall>m. http = TransportError m \<or> http = StatusError m \<or> http = BodyNotJson m \<longrightarrow>
              generate_qa_pairs backend key loads http text_chunk ctx =
                Inr [[(''question'', JStr ''Error generating Q&A''),
                      (''answer'', JStr (''API error: '' @ m)),
                      (''type'', JStr ''error''),
                      (''section'', JStr (section_heading_of ctx))]]) \<and>
         (\<forall>t m. loads t = Inl m \<and>
                 (backend = ''claude'' \<and> http = claude_reply t \<or>
                  backend = ''ollama'' \<and> (\<exists>g. http = ollama_reply g \<and> clean_json (JStr g) = Inr t)) \<longrightarrow>
              generate_qa_pairs backend key loads http text_chunk ctx =
                Inr [[(''question'', JStr ''Error generating Q&A''),
                      (''answer'', JStr (''API error: '' @ m)),
                      (''type'', JStr ''error''),
                      (''section'', JStr (section_heading_of ctx))]]) \<and>
         (\<forall>env pdf_id d pdf n i c rest acc e.
            provider env = backend \<and> anthropic_api_key env = key \<and> json_loads env = loads \<and>
            exchange env i = http \<and> pdfs d pdf_id = Some pdf \<and> status pdf \<noteq> ''canceled'' \<and>
            (if backend = ''claude'' then claude_try loads http (heading c)
             else ollama_try loads http (heading c)) = Inl e \<longrightarrow>
            qa_loop env pdf_id n i (c # rest) acc d =
              qa_loop env pdf_id n (i + 1) rest
                (acc @ [\<lparr>qa_pdf_id = pdf_id, question = JStr ''Error generating Q&A'',
                         answer = JStr (''API error: '' @ exn_str e),
                         qa_section = JStr (heading c), qa_type = JStr ''error''\<rparr>])
                ((set_pdf pdf_id
                    (\<lambda>p. p\<lparr>progress := chunk_progress env i n, status := chunk_status i n\<rparr>) d)
                 \<lparr>qa_pairs := qa_pairs d @
                    [\<lparr>qa_pdf_id = pdf_id, question = JStr ''Error generating Q&A'',
                      answer = JStr (''API error: '' @ exn_str e),
                      qa_section = JStr (heading c), qa_type = JStr ''error''\<rparr>]\<rparr>))"
proof -
  note a = generate_qa_pairs_degrades [OF assms, of loads http text_chunk ctx]
  have b: "\<forall>env pdf_id d pdf n i c rest acc e.
            provider env = backend \<and> anthropic_api_key env = key \<and> json_loads env = loads \<and>
            exchange env i = http \<and> pdfs d pdf_id = Some pdf \<and> status pdf \<noteq> ''canceled'' \<and>
            (if backend = ''claude'' then claude_try loads http (heading c)
             else ollama_try loads http (heading c)) = Inl e \<longrightarrow>
            qa_loop env pdf_id n i (c # rest) acc d =
              qa_loop env pdf_id n (i + 1) rest
                (acc @ [\<lparr>qa_pdf_id = pdf_id, question = JStr ''Error generating Q&A'',
                         answer = JStr (''API error: '' @ exn_str e),
                         qa_section = JStr (heading c), qa_type = JStr ''error''\<rparr>])
                ((set_pdf pdf_id
                    (\<lambda>p. p\<lparr>progress := chunk_progress env i n, status := chunk_status i n\<rparr>) d)
                 \<lparr>qa_pairs := qa_pairs d @
                    [\<lparr>qa_pdf_id = pdf_id, question = JStr ''Error generating Q&A'',
                      answer = JStr (''API error: '' @ exn_str e),
                      qa_section = JStr (heading c), qa_type = JStr ''error''\<rparr>]\<rparr>)"
  proof (intro allI impI)
    fix env :: environment and pdf_id and d :: db and pdf :: pdf_row and n i and c :: chunk
      and rest :: "chunk list" and acc :: "qa_row list" and e
    assume h: "provider env = backend \<and> anthropic_api_key env = key \<and> json_loads env = loads \<and>
            exchange env i = http \<and> pdfs d pdf_id = Some pdf \<and> status pdf \<noteq> ''canceled'' \<and>
            (if backend = ''claude'' then claude_try loads http (heading c)
             else ollama_try loads http (heading c)) = Inl e"
    have b: "provider env = ''claude'' \<and> anthropic_api_key env = Some k \<and> k \<noteq> [] \<or>
              provider env = ''ollama''"
      using assms h by auto
    have t: "(if provider env = ''claude''
               then claude_try (json_loads env) (exchange env i) (heading c)
               else ollama_try (json_loads env) (exchange env i) (heading c)) = Inl e"
      using h by auto
    from h have p: "pdfs d pdf_id = Some pdf" "status pdf \<noteq> ''canceled''" by auto
    show "qa_loop env pdf_id n i (c # rest) acc d =
              qa_loop env pdf_id n (i + 1) rest
                (acc @ [\<lparr>qa_pdf_id = pdf_id, question = JStr ''Error generating Q&A'',
                         answer = JStr (''API error: '' @ exn_str e),
                         qa_section = JStr (heading c), qa_type = JStr ''error''\<rparr>])
                ((set_pdf pdf_id
                    (\<lambda>p. p\<lparr>progress := chunk_progress env i n, status := chunk_status i n\<rparr>) d)
                 \<lparr>qa_pairs := qa_pairs d @
                    [\<lparr>qa_pdf_id = pdf_id, question = JStr ''Error generating Q&A'',
                      answer = JStr (''API error: '' @ exn_str e),
                      qa_section = JStr (heading c), qa_type = JStr ''error''\<rparr>]\<rparr>)"
      by (rule degraded_pair_continues [OF b p t])
  qed
  show ?thesis using a b by blast
qed

theorem provider_errors_degrade_witness:
  "generate_qa_pairs ''ollama'' None (json_loads offline) (TransportError ''timed out'')
       ''Some text.'' (Some [(''heading'', ''Introduction'')]) =
     Inr [[(''question'', JStr ''Error generating Q&A''),
           (''answer'', JStr ''API error: timed out''),
           (''type'', JStr ''error''),
           (''section'', JStr ''Introduction'')]] \<and>
   generate_qa_pairs ''claude'' (Some ''sk-test'') (json_loads offline)
       (StatusError ''Client error 401 Unauthorized'')
       ''Some text.'' (Some [(''heading'', ''Introduction'')]) =
     Inr [[(''question'', JStr ''Error generating Q&A''),
           (''answer'', JStr ''API error: Client error 401 Unauthorized''),
           (''type'', JStr ''error''),
           (''section'', JStr ''Introduction'')]]"
  using provider_errors_degrade
          [where backend = "''ollama''" and key = None and loads = "json_loads offline"
             and http = "TransportError ''timed out''" and text_chunk = "''Some text.''"
             and ctx = "Some [(''heading'', ''Introduction'')]"]
        provider_errors_degrade
          [where backend = "''claude''" and key = "Some ''sk-test''" and k = "''sk-test''"
             and loads = "json_loads offline"
             and http = "StatusError ''Client error 401 Unauthorized''"
             and text_chunk = "''Some text.''"
             and ctx = "Some [(''heading'', ''Introduction'')]"]
  by (simp add: heading_context)

end
